theory Spec2Isabelle
  imports Main "HOL-Library.Sublist"
begin

section \<open>JavaScript values\<close>

text \<open>
  The remote OCR response is whatever \<^verbatim>\<open>response.json()\<close> returns and the source types it
  \<^verbatim>\<open>any[]\<close>, so the entries are modelled as arbitrary JSON values. An object is the finite map
  from its own keys to their values. Numbers are the integral ones (a fractional double differs
  only in how it is printed); strings are lists of code units.
\<close>

datatype jsval =
    JNull
  | JBool bool
  | JNum int
  | JStr string
  | JArr "jsval list"
  | JObj "string \<Rightarrow> jsval option"

type_synonym jsobject = "string \<Rightarrow> jsval option"

text \<open>Exceptions: \<^verbatim>\<open>new Error(msg)\<close> of the source and the \<^verbatim>\<open>TypeError\<close> of the runtime.\<close>

datatype js_error = Error string | TypeError string

fun message :: "js_error \<Rightarrow> string" where
  "message (Error m) = m"
| "message (TypeError m) = m"

text \<open>Truthiness, as \<^verbatim>\<open>if (v)\<close>, \<^verbatim>\<open>a || b\<close> and \<^verbatim>\<open>a && b\<close> test it; \<open>None\<close> is \<^verbatim>\<open>undefined\<close>.\<close>

fun truthy :: "jsval \<Rightarrow> bool" where
  "truthy JNull = False"
| "truthy (JBool b) = b"
| "truthy (JNum n) = (n \<noteq> 0)"
| "truthy (JStr s) = (s \<noteq> [])"
| "truthy (JArr xs) = True"
| "truthy (JObj m) = True"

fun truthy_opt :: "jsval option \<Rightarrow> bool" where
  "truthy_opt None = False"
| "truthy_opt (Some v) = truthy v"

text \<open>\<^verbatim>\<open>a || b\<close>: the left operand when it is truthy, the right one otherwise.\<close>

definition js_or :: "jsval option \<Rightarrow> jsval option \<Rightarrow> jsval option" where
  "js_or a b = (if truthy_opt a then a else b)"

text \<open>\<^verbatim>\<open>typeof v === 'object'\<close> holds of objects, arrays and \<^verbatim>\<open>null\<close>.\<close>

fun typeof_object :: "jsval \<Rightarrow> bool" where
  "typeof_object JNull = True"
| "typeof_object (JArr xs) = True"
| "typeof_object (JObj m) = True"
| "typeof_object v = False"

text \<open>
  Reading one of the properties \<^verbatim>\<open>pageContent\<close>, \<^verbatim>\<open>text\<close>, \<^verbatim>\<open>content\<close>, \<^verbatim>\<open>metadata\<close>,
  \<^verbatim>\<open>lines\<close> (none of them a built-in property of a string, number, boolean or array):
  reading from \<^verbatim>\<open>null\<close> throws, every other value without the key gives \<^verbatim>\<open>undefined\<close>.
\<close>

fun get_prop :: "jsval \<Rightarrow> string \<Rightarrow> js_error + jsval option" where
  "get_prop JNull k = Inl (TypeError (''Cannot read properties of null (reading '' @ [CHR 0x27] @ k @ [CHR 0x27] @ '')''))"
| "get_prop (JObj m) k = Inr (m k)"
| "get_prop v k = Inr None"

text \<open>\<^verbatim>\<open>v?.k\<close>: \<^verbatim>\<open>undefined\<close> when \<open>v\<close> is \<^verbatim>\<open>undefined\<close> or \<^verbatim>\<open>null\<close>.\<close>

fun get_prop_opt :: "jsval option \<Rightarrow> string \<Rightarrow> jsval option" where
  "get_prop_opt (Some (JObj m)) k = m k"
| "get_prop_opt v k = None"

text \<open>The property \<open>k\<close> of an item that is known not to be \<^verbatim>\<open>null\<close>.\<close>

definition item_field :: "jsval \<Rightarrow> string \<Rightarrow> jsval option" where
  "item_field item k = get_prop_opt (Some item) k"

text \<open>\<^verbatim>\<open>typeof v === 'string'\<close>.\<close>

fun typeof_string :: "jsval \<Rightarrow> bool" where
  "typeof_string (JStr s) = True"
| "typeof_string v = False"

subsection \<open>Numbers and values as strings\<close>

definition digit_char :: "nat \<Rightarrow> char" where
  "digit_char d = ''0123456789'' ! (d mod 10)"

function dec :: "nat \<Rightarrow> string" where
  "dec n = (if n < 10 then [digit_char n] else dec (n div 10) @ [digit_char (n mod 10)])"
  by pat_completeness auto
termination
  by (relation "measure id") auto

definition dec_int :: "int \<Rightarrow> string" where
  "dec_int i = (if i < 0 then ''-'' @ dec (nat (- i)) else dec (nat i))"

fun intercalate :: "'a list \<Rightarrow> 'a list list \<Rightarrow> 'a list" where
  "intercalate sep [] = []"
| "intercalate sep [x] = x"
| "intercalate sep (x # y # ys) = x @ sep @ intercalate sep (y # ys)"

text \<open>
  \<^verbatim>\<open>String(v)\<close>, as a template literal applies it; an array prints its elements joined by
  commas, with \<^verbatim>\<open>null\<close> elements printed as nothing.
\<close>

fun toString :: "jsval \<Rightarrow> string" where
  "toString JNull = ''null''"
| "toString (JBool b) = (if b then ''true'' else ''false'')"
| "toString (JNum n) = dec_int n"
| "toString (JStr s) = s"
| "toString (JArr xs) = intercalate '','' (map (\<lambda>x. case x of JNull \<Rightarrow> [] | _ \<Rightarrow> toString x) xs)"
| "toString (JObj m) = ''[object Object]''"

text \<open>\<^verbatim>\<open>Array.prototype.join\<close>: \<^verbatim>\<open>null\<close> and \<^verbatim>\<open>undefined\<close> elements print as nothing.\<close>

definition join :: "string \<Rightarrow> jsval list \<Rightarrow> string" where
  "join sep xs = intercalate sep (map (\<lambda>x. case x of JNull \<Rightarrow> [] | _ \<Rightarrow> toString x) xs)"

subsection \<open>Strings\<close>

definition endsWith :: "string \<Rightarrow> string \<Rightarrow> bool" where
  "endsWith s sfx = suffix sfx s"

definition startsWith :: "string \<Rightarrow> string \<Rightarrow> bool" where
  "startsWith s pfx = prefix pfx s"

text \<open>
  \<^verbatim>\<open>toLowerCase\<close> on the letters A to Z. No other code unit lowercases to any of
  \<^verbatim>\<open>.\<close>, \<^verbatim>\<open>p\<close>, \<^verbatim>\<open>d\<close>, \<^verbatim>\<open>f\<close>, so the suffix test below sees what the source's does.
\<close>

definition lower_char :: "char \<Rightarrow> char" where
  "lower_char c =
     (case map_of (zip ''ABCDEFGHIJKLMNOPQRSTUVWXYZ'' ''abcdefghijklmnopqrstuvwxyz'') c of
        Some l \<Rightarrow> l
      | None \<Rightarrow> c)"

definition toLowerCase :: "string \<Rightarrow> string" where
  "toLowerCase s = map lower_char s"

text \<open>\<^verbatim>\<open>s.split(c)\<close> for a one-character separator: always at least one segment.\<close>

fun split_on :: "char \<Rightarrow> string \<Rightarrow> string list" where
  "split_on c [] = [[]]"
| "split_on c (x # xs) =
     (if x = c then [] # split_on c xs
      else (case split_on c xs of [] \<Rightarrow> [[x]] | s # ss \<Rightarrow> (x # s) # ss))"

subsection \<open>Own enumerable properties\<close>

text \<open>
  What \<^verbatim>\<open>Object.assign(target, v)\<close> and the spread \<^verbatim>\<open>{...v}\<close> copy from \<open>v\<close>: the keys of an
  object, the indices of an array, the indices of a string (one character each), and
  nothing of a number or a boolean.
\<close>

fun own_props :: "jsval \<Rightarrow> jsobject" where
  "own_props (JObj m) = m"
| "own_props (JArr xs) = map_of (zip (map dec [0..<length xs]) xs)"
| "own_props (JStr s) = map_of (zip (map dec [0..<length s]) (map (\<lambda>c. JStr [c]) s))"
| "own_props v = Map.empty"

section \<open>Documents\<close>

text \<open>\<^verbatim>\<open>new Document({ pageContent, metadata })\<close>: the two fields as they are passed.\<close>

record document =
  pageContent :: jsval
  metadata :: jsobject

section \<open>Normalizing the remote OCR response\<close>

text \<open>
  Lines 299 and 318:
  \<^verbatim>\<open>typeof item === 'string' ? item : item.pageContent || item.text || item.content || ''\<close>.
  Reading \<^verbatim>\<open>item.pageContent\<close> of \<^verbatim>\<open>null\<close> throws; once that read has succeeded the other
  two cannot throw.
\<close>

definition item_content :: "jsval \<Rightarrow> js_error + jsval" where
  "item_content item =
     (if typeof_string item then Inr item
      else
        (case get_prop item ''pageContent'' of
           Inl e \<Rightarrow> Inl e
         | Inr pc \<Rightarrow>
           (case js_or (js_or (js_or pc (item_field item ''text'')) (item_field item ''content''))
                   (Some (JStr [])) of
              Some v \<Rightarrow> Inr v
            | None \<Rightarrow> Inr (JStr []))))"

definition base_metadata :: "string \<Rightarrow> jsobject" where
  "base_metadata filename = [''source'' \<mapsto> JStr filename, ''custom_ocr'' \<mapsto> JBool True]"

text \<open>
  Lines 310-312 and 325-327: \<^verbatim>\<open>if (typeof item === 'object' && item.metadata)
  Object.assign(metadata, item.metadata)\<close>. In per-file mode the item is \<^verbatim>\<open>result[0]\<close>, read
  with \<^verbatim>\<open>?.\<close>, which is \<^verbatim>\<open>undefined\<close> for an empty array.
\<close>

definition merge_item_metadata :: "jsobject \<Rightarrow> jsval option \<Rightarrow> jsobject" where
  "merge_item_metadata md item =
     (case item of
        None \<Rightarrow> md
      | Some it \<Rightarrow>
        if typeof_object it then
          (case get_prop_opt item ''metadata'' of
             None \<Rightarrow> md
           | Some m \<Rightarrow> if truthy m then md ++ own_props m else md)
        else md)"

text \<open>Lines 297-302: the callback of \<^verbatim>\<open>result.map\<close> in per-file mode, from index \<open>index\<close> on.\<close>

fun perFile_parts :: "nat \<Rightarrow> jsval list \<Rightarrow> js_error + jsval list" where
  "perFile_parts index [] = Inr []"
| "perFile_parts index (item # rest) =
     (case item_content item of
        Inl e \<Rightarrow> Inl e
      | Inr content \<Rightarrow>
        (case perFile_parts (index + 1) rest of
           Inl e \<Rightarrow> Inl e
         | Inr parts \<Rightarrow>
           Inr ((if index = 0 then content
                 else JStr (''<PAGE_BREAK>'' @ dec (index + 1) @ ''</PAGE_BREAK>\<newline>\<newline>''
                            @ toString content)) # parts)))"

text \<open>Lines 335-349: the \<^verbatim>\<open>lines\<close> field of \<^verbatim>\<open>metadata.loc\<close>, when there is one.\<close>

definition loc_lines :: "jsval \<Rightarrow> jsval \<Rightarrow> js_error + jsval option" where
  "loc_lines item pc =
     (if typeof_object item \<and> truthy_opt (item_field item ''lines'') then
        Inr (item_field item ''lines'')
      else if typeof_object item
              \<and> truthy_opt (get_prop_opt (item_field item ''metadata'') ''lines'') then
        Inr (get_prop_opt (item_field item ''metadata'') ''lines'')
      else if truthy pc then
        (case pc of
           JStr s \<Rightarrow>
             Inr (Some (JObj [''from'' \<mapsto> JNum 1,
                              ''to'' \<mapsto> JNum (int (length (split_on CHR 0x0A s)))]))
         | _ \<Rightarrow> Inl (TypeError ''pageContent.split is not a function''))
      else Inr None)"

text \<open>Lines 317-353: the callback of \<^verbatim>\<open>result.forEach\<close> in per-page mode.\<close>

definition perPage_document :: "string \<Rightarrow> bool \<Rightarrow> nat \<Rightarrow> jsval \<Rightarrow> js_error + document" where
  "perPage_document filename isPdf index item =
     (case item_content item of
        Inl e \<Rightarrow> Inl e
      | Inr pc \<Rightarrow>
        (let md = merge_item_metadata (base_metadata filename) (Some item) in
         if isPdf then
           (case loc_lines item pc of
              Inl e \<Rightarrow> Inl e
            | Inr None \<Rightarrow>
                Inr \<lparr>pageContent = pc,
                     metadata = md(''loc'' \<mapsto> JObj [''pageNumber'' \<mapsto> JNum (int index + 1)])\<rparr>
            | Inr (Some ls) \<Rightarrow>
                Inr \<lparr>pageContent = pc,
                     metadata = md(''loc'' \<mapsto> JObj [''pageNumber'' \<mapsto> JNum (int index + 1),
                                                       ''lines'' \<mapsto> ls])\<rparr>)
         else Inr \<lparr>pageContent = pc, metadata = md\<rparr>))"

fun perPage_documents :: "string \<Rightarrow> bool \<Rightarrow> nat \<Rightarrow> jsval list \<Rightarrow> js_error + document list" where
  "perPage_documents filename isPdf index [] = Inr []"
| "perPage_documents filename isPdf index (item # rest) =
     (case perPage_document filename isPdf index item of
        Inl e \<Rightarrow> Inl e
      | Inr d \<Rightarrow>
        (case perPage_documents filename isPdf (index + 1) rest of
           Inl e \<Rightarrow> Inl e
         | Inr ds \<Rightarrow> Inr (d # ds)))"

text \<open>
  Lines 291-357. \<open>usage\<close> is \<^verbatim>\<open>this.usage\<close> (\<open>None\<close> for \<^verbatim>\<open>undefined\<close>): every value other than
  \<^verbatim>\<open>'perFile'\<close> selects the per-page branch.
\<close>

definition extractDocsFromCustomApi ::
  "string option \<Rightarrow> jsval list \<Rightarrow> string \<Rightarrow> js_error + document list" where
  "extractDocsFromCustomApi usage result filename =
     (let isPdf = endsWith (toLowerCase filename) ''.pdf'' in
      if usage = Some ''perFile'' then
        (case perFile_parts 0 result of
           Inl e \<Rightarrow> Inl e
         | Inr parts \<Rightarrow>
             Inr [\<lparr>pageContent = JStr (join ''\<newline>\<newline>'' parts),
                   metadata = merge_item_metadata (base_metadata filename)
                                (case result of [] \<Rightarrow> None | r0 # _ \<Rightarrow> Some r0)\<rparr>])
      else perPage_documents filename isPdf 0 result)"

section \<open>The collaborators\<close>

text \<open>
  The credential store, the file store, the HTTP transport, the local PDF engine, the text
  splitter, \<^verbatim>\<open>JSON.parse\<close>, the base64 codec of \<^verbatim>\<open>Buffer\<close> and \<^verbatim>\<open>handleEscapeCharacters\<close> are
  not part of the two source files: they are parameters of the model. Every awaited call that
  reaches the outside is appended to a log, and each such collaborator sees the log of the
  calls made before it, so that its answer may depend on everything that happened earlier.
  Each of them may throw. The \<^verbatim>\<open>console.log\<close> lines are left out.
\<close>

record options =
  orgId :: string
  chatflowid :: string

type_synonym bytes = "nat list"

record request =
  req_url :: "string option"
  req_body :: bytes
  req_filename :: string
  req_contentType :: string
  req_authorization :: string
  req_x_filename :: string

record response =
  resp_ok :: bool
  resp_status :: nat
  resp_text :: "js_error + string"
  resp_json :: "js_error + jsval"

datatype call =
    GetCredentialData string options
  | GetFileFromStorage string string string
  | Fetch request
  | PdfLoad bool bytes bool
  | SplitDocuments "document list"

type_synonym splitter = "call list \<Rightarrow> document list \<Rightarrow> js_error + document list"

record env =
  getCredentialData :: "call list \<Rightarrow> string \<Rightarrow> options \<Rightarrow> js_error + jsobject"
  getFileFromStorage :: "call list \<Rightarrow> string \<Rightarrow> string \<Rightarrow> string \<Rightarrow> js_error + bytes"
  fetch :: "call list \<Rightarrow> request \<Rightarrow> js_error + response"
  pdf_load :: "call list \<Rightarrow> bool \<Rightarrow> bytes \<Rightarrow> bool \<Rightarrow> js_error + document list"
  JSON_parse :: "string \<Rightarrow> js_error + jsval"
  JSON_parse_files :: "string \<Rightarrow> js_error + string list"
  base64_decode :: "string \<Rightarrow> bytes"
  base64_encode :: "string \<Rightarrow> string"
  handleEscapeCharacters :: "string \<Rightarrow> bool \<Rightarrow> string"

text \<open>
  \<^verbatim>\<open>nodeData.credential\<close>, \<^verbatim>\<open>nodeData.inputs\<close> and \<^verbatim>\<open>nodeData.outputs?.output\<close>, each field as
  the source casts it; \<open>None\<close> is \<^verbatim>\<open>undefined\<close>. \<open>additionalMetadata\<close> is
  \<^verbatim>\<open>nodeData.inputs?.metadata\<close>. \<^verbatim>\<open>init\<close> copies \<open>textSplitter\<close>, \<open>customOcrApiUrl\<close> and \<open>usage\<close> to
  \<^verbatim>\<open>this\<close> before anything else, so the methods below read them from here. The fourth field
  of \<^verbatim>\<open>this\<close>, \<^verbatim>\<open>this.customOcrApiKey\<close>, is what the credential lookup gives: the methods take it
  as the argument \<open>apiKey\<close>.
\<close>

record nodeData =
  credential :: "string option"
  textSplitter :: "splitter option"
  customOcrApiUrl :: "string option"
  usage :: "string option"
  processFile :: "string option"
  txtFile :: "string option"
  yamlFile :: "string option"
  docxFile :: "string option"
  jsonlinesFile :: "string option"
  csvFile :: "string option"
  jsonFile :: "string option"
  fileObject :: "string option"
  additionalMetadata :: "jsval option"
  legacyBuild :: bool
  outputs_output :: "string option"

text \<open>
  Modelled from the spec: \<^verbatim>\<open>getCredentialParam\<close> is imported from \<^verbatim>\<open>../../../src/utils\<close>, which
  is not among the source files. By the specification (section 6) the credential object has
  one field, an API key string, retrieved by the credential identifier: reading the
  parameter gives that field of the object, and \<^verbatim>\<open>undefined\<close> when the object has no such
  string.
\<close>

definition getCredentialParam :: "string \<Rightarrow> jsobject \<Rightarrow> nodeData \<Rightarrow> string option" where
  "getCredentialParam paramName credentialData nd =
     (case credentialData paramName of
        Some (JStr s) \<Rightarrow> Some s
      | _ \<Rightarrow> None)"

text \<open>Truthiness of a value typed \<^verbatim>\<open>string | undefined\<close>.\<close>

fun truthy_str :: "string option \<Rightarrow> bool" where
  "truthy_str None = False"
| "truthy_str (Some s) = (s \<noteq> [])"

definition str_or :: "string option \<Rightarrow> string option \<Rightarrow> string option" where
  "str_or a b = (if truthy_str a then a else b)"

section \<open>The remote OCR call\<close>

text \<open>Lines 233-251 and 257-261: the request that \<^verbatim>\<open>fetch\<close> is given.\<close>

definition ocr_request ::
  "env \<Rightarrow> nodeData \<Rightarrow> string option \<Rightarrow> bytes \<Rightarrow> string \<Rightarrow> request" where
  "ocr_request e nd apiKey buffer filename =
     \<lparr>req_url = customOcrApiUrl nd,
      req_body = buffer,
      req_filename = filename,
      req_contentType = ''application/pdf'',
      req_authorization =
        ''Bearer '' @ (case apiKey of None \<Rightarrow> ''undefined'' | Some k \<Rightarrow> k),
      req_x_filename = base64_encode e filename\<rparr>"

text \<open>Lines 263-279: what the \<^verbatim>\<open>try\<close> block does with the outcome of \<^verbatim>\<open>fetch\<close>.\<close>

definition read_response ::
  "string option \<Rightarrow> string \<Rightarrow> js_error + response \<Rightarrow> js_error + document list" where
  "read_response u filename outcome =
     (case outcome of
        Inl e \<Rightarrow> Inl e
      | Inr resp \<Rightarrow>
        if \<not> resp_ok resp then
          (case resp_text resp of
             Inl e \<Rightarrow> Inl e
           | Inr errorText \<Rightarrow>
               Inl (Error (''Custom OCR API request failed with status ''
                           @ dec (resp_status resp) @ '': '' @ errorText)))
        else
          (case resp_json resp of
             Inl e \<Rightarrow> Inl e
           | Inr (JArr result) \<Rightarrow> extractDocsFromCustomApi u result filename
           | Inr _ \<Rightarrow>
               Inl (Error ''Invalid response format from Custom OCR API: expected array of pages'')))"

text \<open>Lines 225-283: the \<^verbatim>\<open>catch\<close> rethrows every failure of the block under one message.\<close>

definition postFilesToCustomApi ::
  "env \<Rightarrow> nodeData \<Rightarrow> string option \<Rightarrow> bytes \<Rightarrow> string \<Rightarrow> call list
     \<Rightarrow> (js_error + document list) \<times> call list" where
  "postFilesToCustomApi e nd apiKey buffer filename hist =
     (let req = ocr_request e nd apiKey buffer filename in
      (case read_response (usage nd) filename (fetch e hist req) of
         Inl err \<Rightarrow> Inl (Error (''Failed to process file with Custom OCR API: '' @ message err))
       | Inr docs \<Rightarrow> Inr docs,
       [Fetch req]))"

section \<open>Local extraction\<close>

text \<open>\<^verbatim>\<open>textSplitter.splitDocuments(docs)\<close> when a splitter is configured.\<close>

definition split_with ::
  "splitter option \<Rightarrow> document list \<Rightarrow> call list \<Rightarrow> (js_error + document list) \<times> call list" where
  "split_with sp docs hist =
     (case sp of
        None \<Rightarrow> (Inr docs, [])
      | Some f \<Rightarrow> (f hist docs, [SplitDocuments docs]))"

text \<open>
  Lines 359-390; the result is what the source pushes onto \<^verbatim>\<open>docs\<close>. The two branches differ
  in \<^verbatim>\<open>splitPages\<close> only: \<^verbatim>\<open>false\<close> for \<^verbatim>\<open>'perFile'\<close>, left at the loader's default otherwise.
\<close>

definition extractDocs ::
  "env \<Rightarrow> string option \<Rightarrow> bytes \<Rightarrow> bool \<Rightarrow> splitter option \<Rightarrow> call list
     \<Rightarrow> (js_error + document list) \<times> call list" where
  "extractDocs e u bf legacy sp hist =
     (let c = PdfLoad (u \<noteq> Some ''perFile'') bf legacy in
      case pdf_load e hist (u \<noteq> Some ''perFile'') bf legacy of
        Inl err \<Rightarrow> (Inl err, [c])
      | Inr loaded \<Rightarrow>
        (case split_with sp loaded (hist @ [c]) of (r, cs) \<Rightarrow> (r, c # cs)))"

section \<open>The invocation\<close>

text \<open>Lines 116-124: the first truthy upload field, or the last one.\<close>

definition fileBase64 :: "nodeData \<Rightarrow> string option" where
  "fileBase64 nd =
     str_or (processFile nd) (str_or (txtFile nd) (str_or (yamlFile nd) (str_or (docxFile nd)
       (str_or (jsonlinesFile nd) (str_or (csvFile nd) (str_or (jsonFile nd) (fileObject nd)))))))"

datatype source = Storage | Inline

text \<open>
  Lines 136-142 and 166-170: the list \<^verbatim>\<open>files\<close>. \<^verbatim>\<open>replace\<close> removes the first occurrence of
  the marker, which is the leading one. \<^verbatim>\<open>JSON.parse\<close> is read at the declared type
  \<^verbatim>\<open>string[]\<close> of \<^verbatim>\<open>files\<close>.
\<close>

definition bracketed :: "string \<Rightarrow> bool" where
  "bracketed s = (startsWith s ''['' \<and> endsWith s '']'')"

definition upload_files :: "env \<Rightarrow> string \<Rightarrow> js_error + source \<times> string list" where
  "upload_files e fb =
     (if startsWith fb ''FILE-STORAGE::'' then
        (let fileName = drop (length ''FILE-STORAGE::'') fb in
         if bracketed fileName then
           (case JSON_parse_files e fileName of
              Inl err \<Rightarrow> Inl err
            | Inr files \<Rightarrow> Inr (Storage, files))
         else Inr (Storage, [fileName]))
      else if bracketed fb then
        (case JSON_parse_files e fb of
           Inl err \<Rightarrow> Inl err
         | Inr files \<Rightarrow> Inr (Inline, files))
      else Inr (Inline, [fb]))"

text \<open>
  Lines 174-176. \<^verbatim>\<open>pop()\<close> takes the last segment: the file name is read from it, and the
  segment before it is what \<^verbatim>\<open>Buffer.from(..., 'base64')\<close> decodes.
\<close>

definition dataURI_filename :: "string \<Rightarrow> string" where
  "dataURI_filename file =
     (case rev (split_on CHR '','' file) of
        [] \<Rightarrow> []
      | l # _ \<Rightarrow> (case split_on CHR '':'' l of _ # n # _ \<Rightarrow> n | _ \<Rightarrow> []))"

definition dataURI_payload :: "string \<Rightarrow> string" where
  "dataURI_payload file =
     (case rev (split_on CHR '','' file) of
        _ # p # _ \<Rightarrow> p
      | _ \<Rightarrow> [])"

text \<open>Lines 148-149 and 174-176: the bytes and the file name of one entry of \<^verbatim>\<open>files\<close>.\<close>

definition load_file ::
  "env \<Rightarrow> options \<Rightarrow> source \<Rightarrow> string \<Rightarrow> call list \<Rightarrow> (js_error + bytes \<times> string) \<times> call list" where
  "load_file e opts src file hist =
     (case src of
        Storage \<Rightarrow>
          (case getFileFromStorage e hist file (orgId opts) (chatflowid opts) of
             Inl err \<Rightarrow> Inl err
           | Inr fileData \<Rightarrow> Inr (fileData, file),
           [GetFileFromStorage file (orgId opts) (chatflowid opts)])
      | Inline \<Rightarrow>
          (Inr (base64_decode e (dataURI_payload file), dataURI_filename file), []))"

text \<open>Lines 152-163 and 179-190: the documents one file adds to \<^verbatim>\<open>docs\<close>.\<close>

definition extract_file ::
  "env \<Rightarrow> nodeData \<Rightarrow> string option \<Rightarrow> bytes \<Rightarrow> string \<Rightarrow> call list
     \<Rightarrow> (js_error + document list) \<times> call list" where
  "extract_file e nd apiKey bf filename hist =
     (if truthy_str (customOcrApiUrl nd) \<and> truthy_str apiKey then
        (case postFilesToCustomApi e nd apiKey bf filename hist of
           (Inl err, cs) \<Rightarrow> (Inl err, cs)
         | (Inr customDocs, cs) \<Rightarrow>
           (case split_with (textSplitter nd) customDocs (hist @ cs) of
              (r, cs') \<Rightarrow> (r, cs @ cs')))
      else extractDocs e (usage nd) bf (legacyBuild nd) (textSplitter nd) hist)"

text \<open>
  Lines 146-164 and 172-191: the loop over \<^verbatim>\<open>files\<close>, with \<^verbatim>\<open>docs\<close> as accumulator. An
  exception leaves the loop and the invocation at once.
\<close>

fun process_files ::
  "env \<Rightarrow> nodeData \<Rightarrow> string option \<Rightarrow> options \<Rightarrow> source \<Rightarrow> string list \<Rightarrow> document list
     \<Rightarrow> call list \<Rightarrow> (js_error + document list) \<times> call list" where
  "process_files e nd apiKey opts src [] docs hist = (Inr docs, [])"
| "process_files e nd apiKey opts src (file # rest) docs hist =
     (if file = [] then process_files e nd apiKey opts src rest docs hist
      else
        (case load_file e opts src file hist of
           (Inl err, c1) \<Rightarrow> (Inl err, c1)
         | (Inr (bf, filename), c1) \<Rightarrow>
           (case extract_file e nd apiKey bf filename (hist @ c1) of
              (Inl err, c2) \<Rightarrow> (Inl err, c1 @ c2)
            | (Inr new, c2) \<Rightarrow>
              (case process_files e nd apiKey opts src rest (docs @ new) (hist @ c1 @ c2) of
                 (r, c3) \<Rightarrow> (r, c1 @ c2 @ c3)))))"

text \<open>Line 198.\<close>

definition parse_metadata :: "env \<Rightarrow> jsval \<Rightarrow> js_error + jsval" where
  "parse_metadata e md = (if typeof_object md then Inr md else JSON_parse e (toString md))"

text \<open>Lines 199-205.\<close>

definition apply_metadata :: "jsval \<Rightarrow> document list \<Rightarrow> document list" where
  "apply_metadata parsedMetadata docs =
     map (\<lambda>doc. doc\<lparr>metadata := metadata doc ++ own_props parsedMetadata\<rparr>) docs"

datatype result = Documents "document list" | Text string

text \<open>Lines 208-216.\<close>

definition render :: "env \<Rightarrow> string option \<Rightarrow> document list \<Rightarrow> result" where
  "render e out docs =
     (if out = Some ''document'' then Documents docs
      else Text (handleEscapeCharacters e
                   (concat (map (\<lambda>doc. toString (pageContent doc) @ ''\<newline>'') docs)) False))"

text \<open>Lines 197-216: what follows the loop.\<close>

definition finish :: "env \<Rightarrow> nodeData \<Rightarrow> document list \<Rightarrow> js_error + result" where
  "finish e nd docs =
     (case additionalMetadata nd of
        None \<Rightarrow> Inr (render e (outputs_output nd) docs)
      | Some md \<Rightarrow>
        if truthy md then
          (case parse_metadata e md of
             Inl err \<Rightarrow> Inl err
           | Inr parsedMetadata \<Rightarrow> Inr (render e (outputs_output nd) (apply_metadata parsedMetadata docs)))
        else Inr (render e (outputs_output nd) docs))"

text \<open>
  Lines 115-217: \<^verbatim>\<open>init\<close> from the upload test on, with \<open>apiKey\<close> for \<^verbatim>\<open>this.customOcrApiKey\<close>.
\<close>

definition init_upload ::
  "env \<Rightarrow> nodeData \<Rightarrow> string option \<Rightarrow> options \<Rightarrow> call list
     \<Rightarrow> (js_error + result) \<times> call list" where
  "init_upload e nd apiKey opts hist =
     (if truthy_str (fileBase64 nd) then
        (case upload_files e (case fileBase64 nd of None \<Rightarrow> [] | Some fb \<Rightarrow> fb) of
           Inl err \<Rightarrow> (Inl err, [])
         | Inr (src, files) \<Rightarrow>
           (case process_files e nd apiKey opts src files [] hist of
              (Inl err, cs) \<Rightarrow> (Inl err, cs)
            | (Inr docs, cs) \<Rightarrow> (finish e nd docs, cs)))
      else (Inl (Error ''File upload is required''), []))"

text \<open>Line 112: \<^verbatim>\<open>nodeData.credential ?? ''\<close>.\<close>

definition credential_id :: "nodeData \<Rightarrow> string" where
  "credential_id nd = (case credential nd of None \<Rightarrow> [] | Some c \<Rightarrow> c)"

text \<open>
  Lines 106-217. The credential lookup of lines 112-113 is awaited first: when it throws,
  the invocation ends with its error before any upload field is looked at.
\<close>

definition init ::
  "env \<Rightarrow> nodeData \<Rightarrow> options \<Rightarrow> call list \<Rightarrow> (js_error + result) \<times> call list" where
  "init e nd opts hist =
     (let c = GetCredentialData (credential_id nd) opts in
      case getCredentialData e hist (credential_id nd) opts of
        Inl err \<Rightarrow> (Inl err, [c])
      | Inr credentialData \<Rightarrow>
        (case init_upload e nd (getCredentialParam ''customOcrApiKey'' credentialData nd) opts
                (hist @ [c]) of
           (r, cs) \<Rightarrow> (r, c # cs)))"

section \<open>Vocabulary of the properties\<close>

text \<open>An entry has a text when reading it succeeds and gives a string.\<close>

definition has_text :: "jsval \<Rightarrow> bool" where
  "has_text item = (case item_content item of Inl e \<Rightarrow> False | Inr v \<Rightarrow> typeof_string v)"

text \<open>The text of an entry as per-file mode prints it.\<close>

definition item_text :: "jsval \<Rightarrow> string" where
  "item_text item = (case item_content item of Inl e \<Rightarrow> [] | Inr v \<Rightarrow> toString v)"

text \<open>What an entry's own \<^verbatim>\<open>metadata\<close> contributes to a page: nothing unless it is truthy.\<close>

definition item_metadata :: "jsval \<Rightarrow> jsobject" where
  "item_metadata item =
     (case item_field item ''metadata'' of
        None \<Rightarrow> Map.empty
      | Some m \<Rightarrow> if truthy m then own_props m else Map.empty)"

definition doc_source :: "document \<Rightarrow> jsval option" where
  "doc_source d = metadata d ''source''"

definition doc_pageNumber :: "document \<Rightarrow> jsval option" where
  "doc_pageNumber d = get_prop_opt (metadata d ''loc'') ''pageNumber''"

definition doc_lines :: "document \<Rightarrow> jsval option" where
  "doc_lines d = get_prop_opt (metadata d ''loc'') ''lines''"

text \<open>
  The \<^verbatim>\<open>lines\<close> of a page with text \<open>s\<close>, in priority order: the entry's truthy \<^verbatim>\<open>lines\<close>, else
  the truthy \<^verbatim>\<open>lines\<close> inside its metadata, else the computed range when \<open>s\<close> is not empty,
  else none.
\<close>

definition lines_by_priority :: "jsval \<Rightarrow> string \<Rightarrow> jsval option" where
  "lines_by_priority item s =
     (if truthy_opt (item_field item ''lines'') then item_field item ''lines''
      else if truthy_opt (get_prop_opt (item_field item ''metadata'') ''lines'')
        then get_prop_opt (item_field item ''metadata'') ''lines''
      else if s \<noteq> [] then
        Some (JObj [''from'' \<mapsto> JNum 1, ''to'' \<mapsto> JNum (int (length (split_on CHR 0x0A s)))])
      else None)"

text \<open>
  The specification's reading of the text of a non-string entry: the first of the three
  fields that is present, whatever its value.
\<close>

definition first_present :: "jsval \<Rightarrow> jsval" where
  "first_present item =
     (case item_field item ''pageContent'' of
        Some v \<Rightarrow> v
      | None \<Rightarrow>
        (case item_field item ''text'' of
           Some v \<Rightarrow> v
         | None \<Rightarrow>
           (case item_field item ''content'' of
              Some v \<Rightarrow> v
            | None \<Rightarrow> JStr [])))"

text \<open>
  The per-file text in the specification's words: the texts in order, each after the first
  preceded by its page-break marker, joined by a blank line.
\<close>

definition page_break :: "nat \<Rightarrow> string" where
  "page_break n = ''<PAGE_BREAK>'' @ dec n @ ''</PAGE_BREAK>''"

definition marked :: "nat \<times> string \<Rightarrow> string" where
  "marked p = (if fst p = 0 then snd p else page_break (fst p + 1) @ ''\<newline>\<newline>'' @ snd p)"

definition perFile_text :: "string list \<Rightarrow> string" where
  "perFile_text texts = intercalate ''\<newline>\<newline>'' (map marked (enumerate 0 texts))"

text \<open>\<^verbatim>\<open>Array.isArray\<close>.\<close>

fun isArray :: "jsval \<Rightarrow> bool" where
  "isArray (JArr xs) = True"
| "isArray v = False"




text \<open>
  The specification's reading of an inline upload value: the prefix before the first comma,
  the payload after it.
\<close>

definition before_first_comma :: "string \<Rightarrow> string" where
  "before_first_comma s = takeWhile (\<lambda>c. c \<noteq> CHR '','') s"

definition after_first_comma :: "string \<Rightarrow> string" where
  "after_first_comma s = drop 1 (dropWhile (\<lambda>c. c \<noteq> CHR '','') s)"

text \<open>
  An inline upload value as the resolver reads it: the last comma-separated segment, the
  segment before it (empty when there is none), and within a segment the text between its
  first and its second colon (empty when it has no colon).
\<close>

definition last_segment :: "string \<Rightarrow> string" where
  "last_segment s = rev (takeWhile (\<lambda>c. c \<noteq> CHR '','') (rev s))"

definition before_last_comma :: "string \<Rightarrow> string" where
  "before_last_comma s = rev (drop 1 (dropWhile (\<lambda>c. c \<noteq> CHR '','') (rev s)))"

definition segment_before_last :: "string \<Rightarrow> string" where
  "segment_before_last s = last_segment (before_last_comma s)"

definition between_colons :: "string \<Rightarrow> string" where
  "between_colons s =
     takeWhile (\<lambda>c. c \<noteq> CHR '':'') (drop 1 (dropWhile (\<lambda>c. c \<noteq> CHR '':'') s))"






subsection \<open>An example invocation\<close>

text \<open>
  Three stored files, of which the OCR endpoint answers the second with a JSON object and
  the others with two pages; and a list of two stored files with an empty entry between
  them. The codec entries are the base64 forms of the strings used.
\<close>

definition quoted :: "string \<Rightarrow> string" where
  "quoted s = CHR 0x22 # s @ [CHR 0x22]"

definition example_list :: string where
  "example_list =
     ''['' @ quoted ''a.pdf'' @ '','' @ quoted ''bad.pdf'' @ '','' @ quoted ''c.pdf'' @ '']''"

definition example_pair :: string where
  "example_pair = ''['' @ quoted ''a.pdf'' @ '','' @ quoted [] @ '','' @ quoted ''c.pdf'' @ '']''"

definition pages_response :: response where
  "pages_response = \<lparr>resp_ok = True, resp_status = 200, resp_text = Inr [],
     resp_json = Inr (JArr [JStr ''page one'', JStr ''page two''])\<rparr>"

definition object_response :: response where
  "object_response = \<lparr>resp_ok = True, resp_status = 200, resp_text = Inr [],
     resp_json = Inr (JObj [''pages'' \<mapsto> JArr []])\<rparr>"

definition example_env :: env where
  "example_env =
     \<lparr>getCredentialData = (\<lambda>hist ident opts. Inr [''customOcrApiKey'' \<mapsto> JStr ''secret'']),
      getFileFromStorage = (\<lambda>hist f org flow. Inr [37, 80, 68, 70]),
      fetch = (\<lambda>hist req. Inr (if req_filename req = ''bad.pdf'' then object_response
                                 else pages_response)),
      pdf_load = (\<lambda>hist splitPages bf legacy.
                    Inr [\<lparr>pageContent = JStr ''local text'', metadata = Map.empty\<rparr>]),
      JSON_parse = (\<lambda>s. Inl (Error ''Unexpected token'')),
      JSON_parse_files = (\<lambda>s. if s = example_list then Inr [''a.pdf'', ''bad.pdf'', ''c.pdf'']
                                else if s = example_pair then Inr [''a.pdf'', [], ''c.pdf'']
                                else Inl (Error ''Unexpected token'')),
      base64_decode = (\<lambda>s. if s = ''QUJD'' then [65, 66, 67] else []),
      base64_encode = (\<lambda>s. if s = ''a.pdf'' then ''YS5wZGY=''
                             else if s = ''c.pdf'' then ''Yy5wZGY='' else ''YmFkLnBkZg==''),
      handleEscapeCharacters = (\<lambda>s reverse. s)\<rparr>"

definition example_nodeData :: nodeData where
  "example_nodeData =
     \<lparr>credential = Some ''cred-1'',
      textSplitter = None,
      customOcrApiUrl = Some ''http://localhost:8000/api/process'',
      usage = Some ''perPage'',
      processFile = Some (''FILE-STORAGE::'' @ example_list),
      txtFile = None, yamlFile = None, docxFile = None, jsonlinesFile = None, csvFile = None,
      jsonFile = None, fileObject = None,
      additionalMetadata = None,
      legacyBuild = False,
      outputs_output = Some ''document''\<rparr>"

definition example_options :: options where
  "example_options = \<lparr>orgId = ''org'', chatflowid = ''flow''\<rparr>"

text \<open>The same collaborators, with a credential store that fails.\<close>

definition locked_env :: env where
  "locked_env =
     example_env\<lparr>getCredentialData :=
       (\<lambda>hist ident opts. Inl (Error ''Credential could not be decrypted''))\<rparr>"

section \<open>Reading one entry\<close>

lemma get_prop_not_null: "item \<noteq> JNull \<Longrightarrow> get_prop item k = Inr (item_field item k)"
  by (cases item) (simp_all add: item_field_def)

lemma item_field_not_object: "\<not> typeof_object item \<Longrightarrow> item_field item k = None"
  by (cases item) (simp_all add: item_field_def)

lemma item_content_returns: "item \<noteq> JNull \<Longrightarrow> \<exists>v. item_content item = Inr v \<and> v \<noteq> JNull"
  by (cases item) (auto simp: item_content_def js_or_def item_field_def split: option.splits)

text \<open>A \<^verbatim>\<open>null\<close> entry makes either mode throw, so no page is returned for any entry.\<close>

lemma perFile_parts_null:
  "\<exists>err. perFile_parts index (pre @ JNull # post) = Inl err"
proof (induction pre arbitrary: index)
  case Nil
  show ?case by (simp add: item_content_def)
next
  case (Cons item pre)
  from Cons [of "index + 1"] obtain err where
    "perFile_parts (index + 1) (pre @ JNull # post) = Inl err" by blast
  then show ?case
    by (cases "item_content item") simp_all
qed

lemma perPage_documents_null:
  "\<exists>err. perPage_documents filename isPdf index (pre @ JNull # post) = Inl err"
proof (induction pre arbitrary: index)
  case Nil
  show ?case by (simp add: perPage_document_def item_content_def)
next
  case (Cons item pre)
  from Cons [of "index + 1"] obtain err where
    "perPage_documents filename isPdf (index + 1) (pre @ JNull # post) = Inl err" by blast
  then show ?case
    by (cases "perPage_document filename isPdf index item") simp_all
qed

lemma null_entry_throws:
  "\<exists>err. extractDocsFromCustomApi u (pre @ JNull # post) filename = Inl err"
proof (cases "u = Some ''perFile''")
  case True
  with perFile_parts_null [of 0 pre post] show ?thesis
    by (auto simp: extractDocsFromCustomApi_def)
next
  case False
  with perPage_documents_null [of filename _ 0 pre post] show ?thesis
    by (simp add: extractDocsFromCustomApi_def)
qed

lemma has_textE:
  assumes "has_text item"
  obtains s where "item_content item = Inr (JStr s)"
proof -
  from assms obtain v where v: "item_content item = Inr v" "typeof_string v"
    by (auto simp: has_text_def split: sum.splits)
  then obtain s where "v = JStr s" by (cases v) auto
  with v that show ?thesis by blast
qed

lemma merge_item_metadata_eq:
  "merge_item_metadata md (Some item) = md ++ item_metadata item"
  by (cases item)
     (auto simp: merge_item_metadata_def item_metadata_def item_field_def split: option.splits)

text \<open>
  C4, as amended. For an entry that is neither a string nor \<^verbatim>\<open>null\<close>, the extracted text is
  the value of the first of the fields \<^verbatim>\<open>pageContent\<close>, \<^verbatim>\<open>text\<close>, \<^verbatim>\<open>content\<close> (in that order)
  whose value is truthy, and the empty string when none of the three is truthy. A field that
  is present with a falsy value (the empty string, \<^verbatim>\<open>null\<close>, \<^verbatim>\<open>0\<close>, \<^verbatim>\<open>false\<close>) is passed over.
\<close>

theorem item_content_first_truthy:
  assumes "\<not> typeof_string item" and "item \<noteq> JNull"
  shows "\<exists>v. item_content item = Inr v
     \<and> (truthy_opt (item_field item ''pageContent'') \<longrightarrow> item_field item ''pageContent'' = Some v)
     \<and> (\<not> truthy_opt (item_field item ''pageContent'') \<and> truthy_opt (item_field item ''text'')
          \<longrightarrow> item_field item ''text'' = Some v)
     \<and> (\<not> truthy_opt (item_field item ''pageContent'') \<and> \<not> truthy_opt (item_field item ''text'')
          \<and> truthy_opt (item_field item ''content'') \<longrightarrow> item_field item ''content'' = Some v)
     \<and> (\<not> truthy_opt (item_field item ''pageContent'') \<and> \<not> truthy_opt (item_field item ''text'')
          \<and> \<not> truthy_opt (item_field item ''content'') \<longrightarrow> v = JStr [])"
  using assms
  by (auto simp: item_content_def get_prop_not_null js_or_def split: option.splits)

theorem item_content_first_truthy_witness:
  "item_content (JObj [''pageContent'' \<mapsto> JStr [], ''text'' \<mapsto> JStr ''hello''])
     = Inr (JStr ''hello'')"
  using item_content_first_truthy [of "JObj [''pageContent'' \<mapsto> JStr [], ''text'' \<mapsto> JStr ''hello'']"]
  by (auto simp: item_field_def)

text \<open>
  C4 as stated fails: on \<^verbatim>\<open>{"pageContent": "", "text": "hello"}\<close> the first present field is
  \<^verbatim>\<open>pageContent\<close>, with the empty string as value, and the extracted text is \<^verbatim>\<open>"hello"\<close>.
\<close>

theorem item_content_first_present_counterexample:
  "item_content (JObj [''pageContent'' \<mapsto> JStr [], ''text'' \<mapsto> JStr ''hello''])
     = Inr (JStr ''hello'')
   \<and> first_present (JObj [''pageContent'' \<mapsto> JStr [], ''text'' \<mapsto> JStr ''hello'']) = JStr []
   \<and> item_content (JObj [''pageContent'' \<mapsto> JStr [], ''text'' \<mapsto> JStr ''hello''])
       \<noteq> Inr (first_present (JObj [''pageContent'' \<mapsto> JStr [], ''text'' \<mapsto> JStr ''hello'']))"
  by (simp add: item_content_def first_present_def item_field_def js_or_def)

section \<open>Per-page mode\<close>

lemma loc_lines_text: "loc_lines item (JStr s) = Inr (lines_by_priority item s)"
  by (cases "typeof_object item")
     (auto simp: loc_lines_def lines_by_priority_def item_field_not_object)

lemma length_split_on: "length (split_on c s) = Suc (count_list s c)"
  by (induction s) (auto split: list.splits)

lemma perPage_document_text:
  assumes "item_content item = Inr (JStr s)"
  shows "\<exists>d. perPage_document filename True index item = Inr d
      \<and> pageContent d = JStr s
      \<and> (\<forall>k. k \<noteq> ''loc'' \<longrightarrow> metadata d k = (base_metadata filename ++ item_metadata item) k)
      \<and> doc_pageNumber d = Some (JNum (int index + 1))
      \<and> doc_lines d = lines_by_priority item s"
  using assms
  by (cases "lines_by_priority item s")
     (auto simp: perPage_document_def loc_lines_text merge_item_metadata_eq doc_pageNumber_def
        doc_lines_def)

lemma perPage_document_metadata:
  assumes "perPage_document filename isPdf index item = Inr d" and "k \<noteq> ''loc''"
  shows "metadata d k = (base_metadata filename ++ item_metadata item) k"
  using assms
  by (auto simp: perPage_document_def merge_item_metadata_eq Let_def
           split: sum.splits option.splits if_splits)

lemma perPage_documents_nth:
  "perPage_documents filename isPdf index items = Inr docs \<Longrightarrow>
     length docs = length items
     \<and> (\<forall>i<length items. perPage_document filename isPdf (index + i) (items ! i) = Inr (docs ! i))"
proof (induction items arbitrary: index docs)
  case Nil
  then show ?case by simp
next
  case (Cons item rest)
  from Cons.prems obtain d ds where d: "perPage_document filename isPdf index item = Inr d"
    and ds: "perPage_documents filename isPdf (index + 1) rest = Inr ds" and docs: "docs = d # ds"
    by (auto split: sum.splits)
  from Cons.IH [OF ds] have len: "length ds = length rest"
    and nth: "\<And>i. i < length rest \<Longrightarrow>
                perPage_document filename isPdf (index + 1 + i) (rest ! i) = Inr (ds ! i)"
    by auto
  show ?case
  proof (intro conjI allI impI)
    show "length docs = length (item # rest)" using len docs by simp
  next
    fix i assume "i < length (item # rest)"
    then show "perPage_document filename isPdf (index + i) ((item # rest) ! i) = Inr (docs ! i)"
      using d nth [of "i - 1"] docs by (cases i) auto
  qed
qed

lemma perPage_documents_returns:
  "(\<forall>item\<in>set items. \<forall>index. \<exists>d. perPage_document filename isPdf index item = Inr d) \<Longrightarrow>
     \<exists>docs. perPage_documents filename isPdf index items = Inr docs"
proof (induction items arbitrary: index)
  case Nil
  then show ?case by simp
next
  case (Cons item rest)
  from Cons.prems obtain d where d: "perPage_document filename isPdf index item = Inr d"
    by (meson list.set_intros(1))
  from Cons obtain ds where "perPage_documents filename isPdf (index + 1) rest = Inr ds"
    by (meson list.set_intros(2))
  with d show ?case by simp
qed

text \<open>
  C1, as amended. In per-page mode (every usage other than \<^verbatim>\<open>'perFile'\<close>), for a file name that
  ends case-insensitively in \<^verbatim>\<open>.pdf\<close> and a response array whose entries all have a text (a
  string, or a value other than \<^verbatim>\<open>null\<close> whose first truthy text field is a string or which
  has none), the normalizer returns exactly one page per entry, in array order. Page \<open>i\<close> has
  the entry's text as content; outside the key \<^verbatim>\<open>loc\<close> its metadata is
  \<^verbatim>\<open>{source: filename, custom_ocr: true}\<close> with the entry's own metadata merged over it; its
  \<^verbatim>\<open>loc.pageNumber\<close> is \<open>i + 1\<close>; and its \<^verbatim>\<open>loc.lines\<close> is the entry's truthy \<^verbatim>\<open>lines\<close>, else the
  truthy \<^verbatim>\<open>lines\<close> of the entry's metadata, else \<^verbatim>\<open>{from: 1, to: lineCount}\<close> when the text is
  not empty, where \<open>lineCount\<close> is the number of newline-delimited segments of the text. A
  page with empty text and no \<^verbatim>\<open>lines\<close> of either kind gets no \<^verbatim>\<open>loc.lines\<close> at all.
\<close>

theorem perPage_pdf_pages:
  assumes pdf: "endsWith (toLowerCase filename) ''.pdf''"
    and u: "u \<noteq> Some ''perFile''"
    and wf: "\<forall>item\<in>set result. has_text item"
  shows "\<exists>docs. extractDocsFromCustomApi u result filename = Inr docs
     \<and> length docs = length result
     \<and> (\<forall>i<length result.
          \<exists>s. item_content (result ! i) = Inr (JStr s)
            \<and> pageContent (docs ! i) = JStr s
            \<and> (\<forall>k. k \<noteq> ''loc'' \<longrightarrow>
                  metadata (docs ! i) k = (base_metadata filename ++ item_metadata (result ! i)) k)
            \<and> doc_pageNumber (docs ! i) = Some (JNum (int i + 1))
            \<and> doc_lines (docs ! i) = lines_by_priority (result ! i) s)"
proof -
  have one: "\<exists>d. perPage_document filename True index item = Inr d"
    if "item \<in> set result" for item index
    using wf that perPage_document_text by (metis has_textE)
  then obtain docs where docs: "perPage_documents filename True 0 result = Inr docs"
    using perPage_documents_returns [of result filename True 0] by blast
  from perPage_documents_nth [OF docs]
  have len: "length docs = length result"
    and nth: "\<And>i. i < length result \<Longrightarrow>
                perPage_document filename True i (result ! i) = Inr (docs ! i)"
    by auto
  have "\<exists>s. item_content (result ! i) = Inr (JStr s)
            \<and> pageContent (docs ! i) = JStr s
            \<and> (\<forall>k. k \<noteq> ''loc'' \<longrightarrow>
                  metadata (docs ! i) k = (base_metadata filename ++ item_metadata (result ! i)) k)
            \<and> doc_pageNumber (docs ! i) = Some (JNum (int i + 1))
            \<and> doc_lines (docs ! i) = lines_by_priority (result ! i) s"
    if i: "i < length result" for i
  proof -
    from wf i obtain s where s: "item_content (result ! i) = Inr (JStr s)"
      by (meson has_textE nth_mem)
    from perPage_document_text [OF s, of filename i] nth [OF i]
    show ?thesis using s by auto
  qed
  with docs len show ?thesis
    using pdf u by (auto simp: extractDocsFromCustomApi_def)
qed

text \<open>The response \<^verbatim>\<open>["page one", "page two"]\<close> for \<^verbatim>\<open>doc.pdf\<close>.\<close>

theorem perPage_pdf_pages_witness:
  "\<exists>docs. extractDocsFromCustomApi (Some ''perPage'') [JStr ''page one'', JStr ''page two'']
             ''doc.pdf'' = Inr docs
     \<and> length docs = 2
     \<and> pageContent (docs ! 0) = JStr ''page one'' \<and> pageContent (docs ! 1) = JStr ''page two''
     \<and> metadata (docs ! 0) ''source'' = Some (JStr ''doc.pdf'')
     \<and> metadata (docs ! 1) ''source'' = Some (JStr ''doc.pdf'')
     \<and> metadata (docs ! 0) ''custom_ocr'' = Some (JBool True)
     \<and> metadata (docs ! 1) ''custom_ocr'' = Some (JBool True)
     \<and> doc_pageNumber (docs ! 0) = Some (JNum 1) \<and> doc_pageNumber (docs ! 1) = Some (JNum 2)
     \<and> doc_lines (docs ! 0) = Some (JObj [''from'' \<mapsto> JNum 1, ''to'' \<mapsto> JNum 1])
     \<and> doc_lines (docs ! 1) = Some (JObj [''from'' \<mapsto> JNum 1, ''to'' \<mapsto> JNum 1])"
proof -
  let ?result = "[JStr ''page one'', JStr ''page two'']"
  have pdf: "endsWith (toLowerCase ''doc.pdf'') ''.pdf''"
    by (simp add: endsWith_def toLowerCase_def lower_char_def suffix_def)
  have u: "Some ''perPage'' \<noteq> Some ''perFile''" by simp
  have wf: "\<forall>item\<in>set ?result. has_text item"
    by (simp add: has_text_def item_content_def)
  from perPage_pdf_pages [OF pdf u wf]
  obtain docs where
    docs: "extractDocsFromCustomApi (Some ''perPage'') ?result ''doc.pdf'' = Inr docs"
      "length docs = 2"
    and nth: "\<And>i. i < 2 \<Longrightarrow> \<exists>s. item_content (?result ! i) = Inr (JStr s)
            \<and> pageContent (docs ! i) = JStr s
            \<and> (\<forall>k. k \<noteq> ''loc'' \<longrightarrow>
                  metadata (docs ! i) k
                    = (base_metadata ''doc.pdf'' ++ item_metadata (?result ! i)) k)
            \<and> doc_pageNumber (docs ! i) = Some (JNum (int i + 1))
            \<and> doc_lines (docs ! i) = lines_by_priority (?result ! i) s"
    by auto
  from nth [of 0] have p0: "pageContent (docs ! 0) = JStr ''page one''"
    "metadata (docs ! 0) ''source'' = Some (JStr ''doc.pdf'')"
    "metadata (docs ! 0) ''custom_ocr'' = Some (JBool True)"
    "doc_pageNumber (docs ! 0) = Some (JNum 1)"
    "doc_lines (docs ! 0) = Some (JObj [''from'' \<mapsto> JNum 1, ''to'' \<mapsto> JNum 1])"
    by (auto simp: item_content_def base_metadata_def item_metadata_def item_field_def
          lines_by_priority_def)
  from nth [of 1] have p1: "pageContent (docs ! 1) = JStr ''page two''"
    "metadata (docs ! 1) ''source'' = Some (JStr ''doc.pdf'')"
    "metadata (docs ! 1) ''custom_ocr'' = Some (JBool True)"
    "doc_pageNumber (docs ! 1) = Some (JNum 2)"
    "doc_lines (docs ! 1) = Some (JObj [''from'' \<mapsto> JNum 1, ''to'' \<mapsto> JNum 1])"
    by (auto simp: item_content_def base_metadata_def item_metadata_def item_field_def
          lines_by_priority_def)
  from docs p0 p1 show ?thesis by simp
qed

text \<open>
  C1 as stated fails on an empty page: for the response \<^verbatim>\<open>[""]\<close> and \<^verbatim>\<open>doc.pdf\<close> the text has
  one newline-delimited segment, so the claim gives \<^verbatim>\<open>loc.lines = {from: 1, to: 1}\<close>, and the
  page has no \<^verbatim>\<open>loc.lines\<close>.
\<close>

theorem perPage_empty_page_counterexample:
  "map_sum message (map doc_lines)
     (extractDocsFromCustomApi (Some ''perPage'') [JStr []] ''doc.pdf'') = Inr [None]
   \<and> map_sum message (map doc_pageNumber)
     (extractDocsFromCustomApi (Some ''perPage'') [JStr []] ''doc.pdf'') = Inr [Some (JNum 1)]
   \<and> length (split_on CHR 0x0A []) = 1
   \<and> map_sum message (map doc_lines)
     (extractDocsFromCustomApi (Some ''perPage'') [JStr []] ''doc.pdf'')
       \<noteq> Inr [Some (JObj [''from'' \<mapsto> JNum 1, ''to'' \<mapsto> JNum 1])]"
  by (simp add: extractDocsFromCustomApi_def endsWith_def toLowerCase_def lower_char_def
        suffix_def perPage_document_def item_content_def loc_lines_def item_field_def
        doc_lines_def doc_pageNumber_def)

section \<open>Per-file mode\<close>

lemma perFile_parts_text:
  "\<forall>item\<in>set items. item \<noteq> JNull \<Longrightarrow>
     \<exists>parts. perFile_parts index items = Inr parts
       \<and> map (\<lambda>x. case x of JNull \<Rightarrow> [] | _ \<Rightarrow> toString x) parts
           = map marked (enumerate index (map item_text items))"
proof (induction items arbitrary: index)
  case Nil
  then show ?case by simp
next
  case (Cons item rest)
  from Cons.prems obtain v where v: "item_content item = Inr v" "v \<noteq> JNull"
    using item_content_returns [of item] by auto
  from Cons obtain parts where parts: "perFile_parts (index + 1) rest = Inr parts"
    "map (\<lambda>x. case x of JNull \<Rightarrow> [] | _ \<Rightarrow> toString x) parts
       = map marked (enumerate (index + 1) (map item_text rest))"
    by (meson list.set_intros(2))
  from v have "(case v of JNull \<Rightarrow> [] | _ \<Rightarrow> toString v) = toString v"
    by (cases v) auto
  moreover have "marked (index, item_text item)
      = (if index = 0 then toString v
         else ''<PAGE_BREAK>'' @ dec (index + 1) @ ''</PAGE_BREAK>\<newline>\<newline>'' @ toString v)"
    using v by (simp add: marked_def item_text_def page_break_def)
  ultimately show ?case using v parts by simp
qed

text \<open>
  C2, as amended. In per-file mode, for every response array without a \<^verbatim>\<open>null\<close> entry, the
  normalizer returns exactly one page. Its content is the entries' texts in array order,
  each after the first preceded by \<^verbatim>\<open><PAGE_BREAK>n</PAGE_BREAK>\<close> and a blank line, \<open>n\<close> being the
  entry's 1-based position, all joined by a blank line. Its metadata is
  \<^verbatim>\<open>{source: filename, custom_ocr: true}\<close> with the first entry's own metadata merged over it, so
  \<^verbatim>\<open>source\<close> and \<^verbatim>\<open>custom_ocr\<close> keep these values unless that metadata has the key.
\<close>

theorem perFile_single_page:
  assumes "\<forall>item\<in>set result. item \<noteq> JNull"
  shows "extractDocsFromCustomApi (Some ''perFile'') result filename =
     Inr [\<lparr>pageContent = JStr (perFile_text (map item_text result)),
           metadata = base_metadata filename
                        ++ (case result of [] \<Rightarrow> Map.empty | first # _ \<Rightarrow> item_metadata first)\<rparr>]"
proof -
  from perFile_parts_text [OF assms, of 0] obtain parts where
    "perFile_parts 0 result = Inr parts"
    "join ''\<newline>\<newline>'' parts = perFile_text (map item_text result)"
    by (auto simp: join_def perFile_text_def)
  moreover have
    "merge_item_metadata (base_metadata filename) (case result of [] \<Rightarrow> None | r0 # _ \<Rightarrow> Some r0)
     = base_metadata filename
         ++ (case result of [] \<Rightarrow> Map.empty | first # _ \<Rightarrow> item_metadata first)"
    by (cases result) (simp_all add: merge_item_metadata_eq, simp add: merge_item_metadata_def)
  ultimately show ?thesis
    by (simp add: extractDocsFromCustomApi_def)
qed

text \<open>The response \<^verbatim>\<open>["page one", "page two"]\<close>.\<close>

theorem perFile_single_page_witness:
  "extractDocsFromCustomApi (Some ''perFile'') [JStr ''page one'', JStr ''page two''] ''doc.pdf'' =
     Inr [\<lparr>pageContent =
             JStr ''page one\<newline>\<newline><PAGE_BREAK>2</PAGE_BREAK>\<newline>\<newline>page two'',
           metadata = [''source'' \<mapsto> JStr ''doc.pdf'', ''custom_ocr'' \<mapsto> JBool True]\<rparr>]"
  using perFile_single_page [of "[JStr ''page one'', JStr ''page two'']" "''doc.pdf''"]
  by (simp add: perFile_text_def item_text_def item_content_def marked_def page_break_def
        base_metadata_def enumerate_eq_zip digit_char_def item_metadata_def item_field_def)

text \<open>
  C2 as stated fails where the first entry brings a \<^verbatim>\<open>source\<close> of its own: for
  \<^verbatim>\<open>[{"pageContent": "a", "metadata": {"source": "x"}}]\<close> and \<^verbatim>\<open>doc.pdf\<close> the page's \<^verbatim>\<open>source\<close> is
  \<^verbatim>\<open>"x"\<close>, not the file name.
\<close>

theorem perFile_source_counterexample:
  "map_sum message (map doc_source)
     (extractDocsFromCustomApi (Some ''perFile'')
        [JObj [''pageContent'' \<mapsto> JStr ''a'', ''metadata'' \<mapsto> JObj [''source'' \<mapsto> JStr ''x'']]]
        ''doc.pdf'') = Inr [Some (JStr ''x'')]
   \<and> map_sum message (map doc_source)
     (extractDocsFromCustomApi (Some ''perFile'')
        [JObj [''pageContent'' \<mapsto> JStr ''a'', ''metadata'' \<mapsto> JObj [''source'' \<mapsto> JStr ''x'']]]
        ''doc.pdf'') \<noteq> Inr [Some (JStr ''doc.pdf'')]"
  by (simp add: extractDocsFromCustomApi_def item_content_def js_or_def merge_item_metadata_def
        base_metadata_def doc_source_def)

section \<open>Colliding metadata keys\<close>

text \<open>
  C10. In both modes, whenever the normalizer returns, the page built from an entry whose
  \<^verbatim>\<open>metadata\<close> is an object takes that object's value at every key it has, \<^verbatim>\<open>source\<close> and
  \<^verbatim>\<open>custom_ocr\<close> included (only \<^verbatim>\<open>loc\<close>, which per-page mode writes afterwards, is excepted).
  In per-file mode the entry is the first one.
\<close>

theorem item_metadata_wins:
  assumes run: "extractDocsFromCustomApi u result filename = Inr docs"
    and i: "i < length result" "u = Some ''perFile'' \<longrightarrow> i = 0"
    and md: "item_field (result ! i) ''metadata'' = Some (JObj md)" "md k = Some v"
    and k: "k \<noteq> ''loc''"
  shows "i < length docs \<and> metadata (docs ! i) k = Some v"
proof (cases "u = Some ''perFile''")
  case True
  with i obtain r0 rest where r: "result = r0 # rest" "i = 0" by (cases result) auto
  with md have "item_metadata r0 = md" by (simp add: item_metadata_def)
  with run True r md show ?thesis
    by (auto simp: extractDocsFromCustomApi_def merge_item_metadata_eq split: sum.splits)
next
  case False
  with run have docs:
    "perPage_documents filename (endsWith (toLowerCase filename) ''.pdf'') 0 result = Inr docs"
    by (simp add: extractDocsFromCustomApi_def)
  from perPage_documents_nth [OF docs] i
  have len: "i < length docs"
    and d: "perPage_document filename (endsWith (toLowerCase filename) ''.pdf'') i (result ! i)
              = Inr (docs ! i)"
    by auto
  from md have "item_metadata (result ! i) = md" by (simp add: item_metadata_def)
  with perPage_document_metadata [OF d k] md len show ?thesis by simp
qed

theorem item_metadata_wins_witness:
  "(\<exists>docs. extractDocsFromCustomApi (Some ''perPage'')
              [JStr ''page one'',
               JObj [''text'' \<mapsto> JStr ''page two'',
                     ''metadata'' \<mapsto> JObj [''source'' \<mapsto> JStr ''scan-7'']]]
              ''doc.pdf'' = Inr docs
          \<and> length docs = 2 \<and> metadata (docs ! 1) ''source'' = Some (JStr ''scan-7''))
   \<and> (\<exists>docs. extractDocsFromCustomApi (Some ''perFile'')
              [JObj [''text'' \<mapsto> JStr ''page one'',
                     ''metadata'' \<mapsto> JObj [''custom_ocr'' \<mapsto> JBool False]],
               JStr ''page two'']
              ''doc.pdf'' = Inr docs
          \<and> length docs = 1 \<and> metadata (docs ! 0) ''custom_ocr'' = Some (JBool False))"
proof -
  let ?pages = "[JStr ''page one'',
                 JObj [''text'' \<mapsto> JStr ''page two'',
                       ''metadata'' \<mapsto> JObj [''source'' \<mapsto> JStr ''scan-7'']]]"
  let ?one = "[JObj [''text'' \<mapsto> JStr ''page one'',
                     ''metadata'' \<mapsto> JObj [''custom_ocr'' \<mapsto> JBool False]],
               JStr ''page two'']"
  have "\<exists>docs. extractDocsFromCustomApi (Some ''perPage'') ?pages ''doc.pdf'' = Inr docs
          \<and> length docs = 2"
    by (simp add: extractDocsFromCustomApi_def perPage_document_def item_content_def
          loc_lines_def item_field_def js_or_def endsWith_def toLowerCase_def lower_char_def
          suffix_def)
  then obtain docs where docs:
    "extractDocsFromCustomApi (Some ''perPage'') ?pages ''doc.pdf'' = Inr docs" "length docs = 2"
    by blast
  have "\<exists>d. extractDocsFromCustomApi (Some ''perFile'') ?one ''doc.pdf'' = Inr [d]"
    by (simp add: extractDocsFromCustomApi_def item_content_def item_field_def js_or_def)
  then obtain d where d: "extractDocsFromCustomApi (Some ''perFile'') ?one ''doc.pdf'' = Inr [d]"
    by blast
  from item_metadata_wins [OF docs(1), of 1 "[''source'' \<mapsto> JStr ''scan-7'']" "''source''"
         "JStr ''scan-7''"]
  have "metadata (docs ! 1) ''source'' = Some (JStr ''scan-7'')"
    by (simp add: item_field_def)
  moreover
  from item_metadata_wins [OF d, of 0 "[''custom_ocr'' \<mapsto> JBool False]" "''custom_ocr''"
         "JBool False"]
  have "metadata ([d] ! 0) ''custom_ocr'' = Some (JBool False)"
    by (simp add: item_field_def)
  ultimately show ?thesis using docs d by simp
qed

section \<open>Inline upload values\<close>

lemma split_on_no_sep: "c \<notin> set s \<Longrightarrow> split_on c s = [s]"
  by (induction s) auto

lemma split_on_not_Nil: "split_on c s \<noteq> []"
  by (induction s) (auto split: list.splits)

lemma split_on_append: "split_on c (a @ c # b) = split_on c a @ split_on c b"
  by (induction a) (auto split: list.splits simp: split_on_not_Nil)

lemma hd_split_on: "hd (split_on c s) = takeWhile (\<lambda>x. x \<noteq> c) s"
  by (induction s) (auto split: list.splits simp: split_on_not_Nil)

lemma takeWhile_no_sep: "c \<notin> set s \<Longrightarrow> takeWhile (\<lambda>x. x \<noteq> c) s = s"
  by (induction s) auto

lemma dropWhile_no_sep: "c \<notin> set s \<Longrightarrow> dropWhile (\<lambda>x. x \<noteq> c) s = []"
  by (induction s) auto

lemma takeWhile_at_sep: "c \<notin> set k \<Longrightarrow> takeWhile (\<lambda>x. x \<noteq> c) (k @ c # rest) = k"
  by (induction k) auto

lemma dropWhile_at_sep: "c \<notin> set k \<Longrightarrow> dropWhile (\<lambda>x. x \<noteq> c) (k @ c # rest) = c # rest"
  by (induction k) auto

lemma last_split_on: "last (split_on c s) = rev (takeWhile (\<lambda>x. x \<noteq> c) (rev s))"
proof (cases "c \<in> set s")
  case False
  then show ?thesis by (simp add: split_on_no_sep takeWhile_no_sep)
next
  case True
  then obtain pre l where s: "s = pre @ c # l" and l: "c \<notin> set l"
    by (meson split_list_last)
  have "takeWhile (\<lambda>x. x \<noteq> c) (rev l @ c # rev pre) = rev l"
    using l by (simp add: takeWhile_at_sep)
  with s l show ?thesis
    by (simp add: split_on_append split_on_no_sep)
qed

lemma dataURI_filename_eq: "dataURI_filename file = between_colons (last_segment file)"
proof -
  let ?l = "last_segment file"
  obtain x xs where r: "rev (split_on CHR '','' file) = x # xs"
    using split_on_not_Nil [of "CHR '',''" "file"] by (cases "rev (split_on CHR '','' file)") auto
  then have "x = last (split_on CHR '','' file)"
    by (metis last_rev list.sel(1) rev_rev_ident)
  then have x: "x = ?l" by (simp add: last_split_on last_segment_def)
  have "(case split_on CHR '':'' ?l of _ # n # _ \<Rightarrow> n | _ \<Rightarrow> []) = between_colons ?l"
  proof (cases "CHR '':'' \<in> set ?l")
    case False
    then show ?thesis
      by (simp add: split_on_no_sep between_colons_def dropWhile_no_sep)
  next
    case True
    then obtain k rest where l: "?l = k @ CHR '':'' # rest" and k: "CHR '':'' \<notin> set k"
      by (meson split_list_first)
    obtain y ys where y: "split_on CHR '':'' rest = y # ys"
      using split_on_not_Nil [of "CHR '':''" rest] by (cases "split_on CHR '':'' rest") auto
    then have "y = takeWhile (\<lambda>c. c \<noteq> CHR '':'') rest"
      using hd_split_on [of "CHR '':''" rest] by simp
    moreover have "dropWhile (\<lambda>c. c \<noteq> CHR '':'') (k @ CHR '':'' # rest) = CHR '':'' # rest"
      using k by (simp add: dropWhile_at_sep)
    ultimately show ?thesis
      using l k y by (simp add: split_on_append split_on_no_sep between_colons_def)
  qed
  with r x show ?thesis by (simp add: dataURI_filename_def)
qed

lemma dataURI_payload_eq: "dataURI_payload file = segment_before_last file"
proof (cases "CHR '','' \<in> set file")
  case False
  then show ?thesis
    by (simp add: dataURI_payload_def split_on_no_sep segment_before_last_def
          before_last_comma_def last_segment_def dropWhile_no_sep)
next
  case True
  then obtain pre l where s: "file = pre @ CHR '','' # l" and l: "CHR '','' \<notin> set l"
    by (meson split_list_last)
  obtain x xs where r: "rev (split_on CHR '','' pre) = x # xs"
    using split_on_not_Nil [of "CHR '',''" pre] by (cases "rev (split_on CHR '','' pre)") auto
  then have "x = last (split_on CHR '','' pre)"
    by (metis last_rev list.sel(1) rev_rev_ident)
  then have x: "x = last_segment pre" by (simp add: last_split_on last_segment_def)
  have "dropWhile (\<lambda>c. c \<noteq> CHR '','') (rev l @ CHR '','' # rev pre) = CHR '','' # rev pre"
    using l by (simp add: dropWhile_at_sep)
  then have "before_last_comma file = pre"
    using s by (simp add: before_last_comma_def)
  with s l r x show ?thesis
    by (simp add: dataURI_payload_def split_on_append split_on_no_sep segment_before_last_def)
qed

lemma load_file_inline:
  "load_file e opts Inline file hist
     = (Inr (base64_decode e (segment_before_last file), between_colons (last_segment file)), [])"
  by (simp add: load_file_def dataURI_payload_eq dataURI_filename_eq)

lemma upload_files_inline:
  assumes "\<not> startsWith fb ''FILE-STORAGE::''" and "upload_files e fb = Inr (src, files)"
  shows "src = Inline" and "if bracketed fb then JSON_parse_files e fb = Inr files else files = [fb]"
  using assms by (auto simp: upload_files_def split: if_splits sum.splits)

text \<open>
  C3, as amended. Every upload value that is not a storage reference resolves to inline
  entries: the parsed list when the value is bracketed, the value itself otherwise. An inline
  entry is split on every comma. For every entry, whatever its shape, the name of the
  resolved file is the text between the first and the second colon of the entry's last
  segment (empty when that segment has no colon), and its bytes are the base64 decoding of
  the segment before the last one (of the empty string when the entry has no comma). These
  are the bytes and the name that the loop hands to the extraction of the entry.
\<close>

theorem inline_file_segments:
  assumes "\<not> startsWith fb ''FILE-STORAGE::''" and "upload_files e fb = Inr (src, files)"
  shows "src = Inline
     \<and> (if bracketed fb then JSON_parse_files e fb = Inr files else files = [fb])
     \<and> load_file e opts src file hist
         = (Inr (base64_decode e (segment_before_last file), between_colons (last_segment file)),
            [])
     \<and> (file \<noteq> [] \<longrightarrow>
          process_files e nd apiKey opts src (file # rest) docs hist
            = (case extract_file e nd apiKey (base64_decode e (segment_before_last file))
                      (between_colons (last_segment file)) hist of
                 (Inl err, c2) \<Rightarrow> (Inl err, c2)
               | (Inr new, c2) \<Rightarrow>
                 (case process_files e nd apiKey opts src rest (docs @ new) (hist @ c2) of
                    (r, c3) \<Rightarrow> (r, c2 @ c3))))"
proof -
  from upload_files_inline [OF assms]
  have src: "src = Inline"
    and files: "if bracketed fb then JSON_parse_files e fb = Inr files else files = [fb]"
    by simp_all
  from files show ?thesis
    unfolding src by (auto simp: load_file_inline split: prod.splits sum.splits)
qed

text \<open>
  The upload format \<^verbatim>\<open>data:<type>;base64,<payload>,filename:<name>\<close>; a value with one comma,
  whose prefix is what gets decoded; and a last segment with two colons.
\<close>

theorem inline_file_segments_witness:
  "load_file example_env example_options Inline
     ''data:application/pdf;base64,QUJD,filename:doc.pdf'' []
     = (Inr ([65, 66, 67], ''doc.pdf''), [])
   \<and> load_file example_env example_options Inline ''data:application/pdf;base64,QUJD'' []
     = (Inr ([], []), [])
   \<and> load_file example_env example_options Inline ''QUJD,name:a:b.pdf'' []
     = (Inr ([65, 66, 67], ''a''), [])"
proof -
  have a: "\<not> startsWith ''data:application/pdf;base64,QUJD,filename:doc.pdf'' ''FILE-STORAGE::''"
    "upload_files example_env ''data:application/pdf;base64,QUJD,filename:doc.pdf''
       = Inr (Inline, [''data:application/pdf;base64,QUJD,filename:doc.pdf''])"
    by (simp_all add: upload_files_def bracketed_def startsWith_def endsWith_def prefix_def
          suffix_def)
  have b: "\<not> startsWith ''data:application/pdf;base64,QUJD'' ''FILE-STORAGE::''"
    "upload_files example_env ''data:application/pdf;base64,QUJD''
       = Inr (Inline, [''data:application/pdf;base64,QUJD''])"
    by (simp_all add: upload_files_def bracketed_def startsWith_def endsWith_def prefix_def
          suffix_def)
  have c: "\<not> startsWith ''QUJD,name:a:b.pdf'' ''FILE-STORAGE::''"
    "upload_files example_env ''QUJD,name:a:b.pdf'' = Inr (Inline, [''QUJD,name:a:b.pdf''])"
    by (simp_all add: upload_files_def bracketed_def startsWith_def endsWith_def prefix_def
          suffix_def)
  from inline_file_segments [OF a, of example_options
         "''data:application/pdf;base64,QUJD,filename:doc.pdf''" "[]"]
       inline_file_segments [OF b, of example_options "''data:application/pdf;base64,QUJD''" "[]"]
       inline_file_segments [OF c, of example_options "''QUJD,name:a:b.pdf''" "[]"]
  show ?thesis
    by (simp add: example_env_def segment_before_last_def before_last_comma_def
          last_segment_def between_colons_def)
qed

text \<open>
  C3 as stated fails on the upload format \<^verbatim>\<open>data:<type>;base64,<payload>,filename:<name>\<close>:
  what follows the first comma is \<^verbatim>\<open>QUJD,filename:doc.pdf\<close>, and the string that is decoded
  is \<^verbatim>\<open>QUJD\<close>; the file name \<^verbatim>\<open>doc.pdf\<close> is not in the prefix before the first comma.
\<close>

theorem first_comma_counterexample:
  "dataURI_payload ''data:application/pdf;base64,QUJD,filename:doc.pdf'' = ''QUJD''
   \<and> after_first_comma ''data:application/pdf;base64,QUJD,filename:doc.pdf''
       = ''QUJD,filename:doc.pdf''
   \<and> dataURI_filename ''data:application/pdf;base64,QUJD,filename:doc.pdf'' = ''doc.pdf''
   \<and> before_first_comma ''data:application/pdf;base64,QUJD,filename:doc.pdf''
       = ''data:application/pdf;base64''
   \<and> dataURI_payload ''data:application/pdf;base64,QUJD,filename:doc.pdf''
       \<noteq> after_first_comma ''data:application/pdf;base64,QUJD,filename:doc.pdf''"
  by (simp add: dataURI_payload_def dataURI_filename_def after_first_comma_def
        before_first_comma_def)

section \<open>A body that is not an array\<close>

text \<open>
  C5. When \<^verbatim>\<open>fetch\<close> answers with a success status and a JSON body that is not an array, the
  remote OCR call for the file throws an error whose message ends in
  \<^verbatim>\<open>expected array of pages\<close>, after the one request and with no documents.
\<close>

theorem non_array_body_fails:
  assumes "fetch e hist (ocr_request e nd apiKey buffer filename) = Inr resp"
    and "resp_ok resp" and "resp_json resp = Inr body" and "\<not> isArray body"
  shows "\<exists>err. postFilesToCustomApi e nd apiKey buffer filename hist
                 = (Inl err, [Fetch (ocr_request e nd apiKey buffer filename)])
           \<and> message err = ''Failed to process file with Custom OCR API: ''
                @ ''Invalid response format from Custom OCR API: expected array of pages''
           \<and> suffix ''expected array of pages'' (message err)"
  using assms
  by (cases body) (simp_all add: postFilesToCustomApi_def read_response_def suffix_def)

theorem non_array_body_fails_witness:
  "\<exists>err. postFilesToCustomApi example_env example_nodeData (Some ''secret'') [37, 80, 68, 70]
             ''bad.pdf'' []
           = (Inl err, [Fetch (ocr_request example_env example_nodeData (Some ''secret'')
                                 [37, 80, 68, 70] ''bad.pdf'')])
     \<and> message err = ''Failed to process file with Custom OCR API: Invalid response format from Custom OCR API: expected array of pages''"
proof -
  have answer: "fetch example_env []
                  (ocr_request example_env example_nodeData (Some ''secret'') [37, 80, 68, 70]
                     ''bad.pdf'')
                  = Inr object_response"
    by (simp add: example_env_def ocr_request_def)
  have ok: "resp_ok object_response"
    and body: "resp_json object_response = Inr (JObj [''pages'' \<mapsto> JArr []])"
    by (simp_all add: object_response_def)
  have shape: "\<not> isArray (JObj [''pages'' \<mapsto> JArr []])" by simp
  from non_array_body_fails [OF answer ok body shape] show ?thesis by auto
qed

section \<open>No upload\<close>

lemma init_credential:
  assumes "getCredentialData e hist (credential_id nd) opts = Inr credentialData"
  shows "init e nd opts hist =
     (case init_upload e nd (getCredentialParam ''customOcrApiKey'' credentialData nd) opts
             (hist @ [GetCredentialData (credential_id nd) opts]) of
        (r, cs) \<Rightarrow> (r, GetCredentialData (credential_id nd) opts # cs))"
  using assms by (simp add: init_def Let_def)

text \<open>
  C6, as amended. When none of the eight upload fields carries a value (each is \<^verbatim>\<open>undefined\<close>
  or the empty string), the invocation fails and returns nothing, and the credential lookup
  is the only collaborator it calls. The error is \<^verbatim>\<open>File upload is required\<close> whenever the
  credential lookup, which is awaited first, returns; when the lookup throws, the invocation
  ends with the lookup's error.
\<close>

theorem no_upload_fails:
  assumes "\<not> truthy_str (processFile nd)" "\<not> truthy_str (txtFile nd)"
    "\<not> truthy_str (yamlFile nd)" "\<not> truthy_str (docxFile nd)"
    "\<not> truthy_str (jsonlinesFile nd)" "\<not> truthy_str (csvFile nd)"
    "\<not> truthy_str (jsonFile nd)" "\<not> truthy_str (fileObject nd)"
  shows "init e nd opts hist =
     (Inl (case getCredentialData e hist (credential_id nd) opts of
             Inl err \<Rightarrow> err
           | Inr credentialData \<Rightarrow> Error ''File upload is required''),
      [GetCredentialData (credential_id nd) opts])"
proof -
  have "\<not> truthy_str (fileBase64 nd)"
    using assms by (simp add: fileBase64_def str_or_def)
  then show ?thesis
    by (cases "getCredentialData e hist (credential_id nd) opts")
       (simp_all add: init_def init_upload_def Let_def)
qed

theorem no_upload_fails_witness:
  "init example_env (example_nodeData\<lparr>processFile := Some []\<rparr>) example_options []
     = (Inl (Error ''File upload is required''), [GetCredentialData ''cred-1'' example_options])"
  using no_upload_fails [of "example_nodeData\<lparr>processFile := Some []\<rparr>" example_env
          example_options "[]"]
  by (simp add: example_nodeData_def example_env_def credential_id_def)

text \<open>
  C6 as stated fails where the credential lookup throws: with no upload field set, the
  invocation ends with the lookup's error, not with \<^verbatim>\<open>File upload is required\<close>.
\<close>

theorem credential_error_counterexample:
  "init locked_env (example_nodeData\<lparr>processFile := None\<rparr>) example_options []
     = (Inl (Error ''Credential could not be decrypted''),
        [GetCredentialData ''cred-1'' example_options])
   \<and> fst (init locked_env (example_nodeData\<lparr>processFile := None\<rparr>) example_options [])
       \<noteq> Inl (Error ''File upload is required'')
   \<and> fileBase64 (example_nodeData\<lparr>processFile := None\<rparr>) = None"
  by (simp add: init_def Let_def locked_env_def example_env_def example_nodeData_def
        credential_id_def fileBase64_def str_or_def)

section \<open>The loop over the files\<close>

lemma process_files_append:
  "process_files e nd apiKey opts src pre docs0 hist = (Inr docs1, c1) \<Longrightarrow>
   process_files e nd apiKey opts src (pre @ rest) docs0 hist =
     (case process_files e nd apiKey opts src rest docs1 (hist @ c1) of
        (r, c2) \<Rightarrow> (r, c1 @ c2))"
proof (induction pre arbitrary: docs0 hist c1)
  case Nil
  then show ?case by (simp split: prod.splits)
next
  case (Cons f pre)
  show ?case
  proof (cases "f = []")
    case True
    with Cons show ?thesis by simp
  next
    case False
    from Cons.prems False obtain bf filename ca new cb cc where
      l: "load_file e opts src f hist = (Inr (bf, filename), ca)"
      and x: "extract_file e nd apiKey bf filename (hist @ ca) = (Inr new, cb)"
      and r: "process_files e nd apiKey opts src pre (docs0 @ new) (hist @ ca @ cb)
                = (Inr docs1, cc)"
      and c1: "c1 = ca @ cb @ cc"
      by (auto split: prod.splits sum.splits)
    from Cons.IH [OF r] l x c1 False show ?thesis
      by (simp split: prod.splits)
  qed
qed

lemma process_files_abort:
  assumes "f \<noteq> []"
    and "load_file e opts src f hist = (Inr (bf, filename), c2)"
    and "extract_file e nd apiKey bf filename (hist @ c2) = (Inl err, c3)"
  shows "process_files e nd apiKey opts src (f # post) docs hist = (Inl err, c2 @ c3)"
  using assms by simp

lemma init_upload_run:
  assumes "fileBase64 nd = Some fb" "fb \<noteq> []" "upload_files e fb = Inr (src, files)"
  shows "init_upload e nd apiKey opts hist =
     (case process_files e nd apiKey opts src files [] hist of
        (Inl err, cs) \<Rightarrow> (Inl err, cs)
      | (Inr docs, cs) \<Rightarrow> (finish e nd docs, cs))"
  using assms by (simp add: init_upload_def)

text \<open>
  C8. Let the credential lookup return, let the upload value resolve to the files
  \<open>pre @ f # post\<close>, let remote OCR be configured, let the files \<open>pre\<close> be processed without
  error, and let the remote OCR call for \<open>f\<close> fail with \<open>err\<close>. Then the invocation ends with
  \<open>err\<close> and returns no documents, and its log ends with the failing call: nothing is done for
  the files \<open>post\<close>, whatever they are.
\<close>

theorem remote_failure_aborts:
  assumes cred: "getCredentialData e hist (credential_id nd) opts = Inr credentialData"
      "getCredentialParam ''customOcrApiKey'' credentialData nd = apiKey"
    and up: "fileBase64 nd = Some fb" "fb \<noteq> []"
      "upload_files e fb = Inr (src, pre @ f # post)"
    and remote: "truthy_str (customOcrApiUrl nd)" "truthy_str apiKey"
    and earlier: "process_files e nd apiKey opts src pre []
                    (hist @ [GetCredentialData (credential_id nd) opts]) = (Inr docs1, c1)"
    and current: "f \<noteq> []"
      "load_file e opts src f (hist @ GetCredentialData (credential_id nd) opts # c1)
         = (Inr (bf, filename), c2)"
    and failure: "postFilesToCustomApi e nd apiKey bf filename
                    (hist @ GetCredentialData (credential_id nd) opts # c1 @ c2) = (Inl err, c3)"
  shows "init e nd opts hist = (Inl err, GetCredentialData (credential_id nd) opts # c1 @ c2 @ c3)"
proof -
  let ?h = "hist @ [GetCredentialData (credential_id nd) opts]"
  from current(2) have l: "load_file e opts src f (?h @ c1) = (Inr (bf, filename), c2)" by simp
  from remote failure have "extract_file e nd apiKey bf filename ((?h @ c1) @ c2) = (Inl err, c3)"
    by (simp add: extract_file_def)
  from process_files_abort [OF current(1) l this]
  have "process_files e nd apiKey opts src (f # post) docs1 (?h @ c1) = (Inl err, c2 @ c3)" .
  with process_files_append [OF earlier, of "f # post"]
  have "process_files e nd apiKey opts src (pre @ f # post) [] ?h = (Inl err, c1 @ c2 @ c3)"
    by simp
  with init_upload_run [OF up, of apiKey opts ?h]
  have "init_upload e nd apiKey opts ?h = (Inl err, c1 @ c2 @ c3)" by simp
  with init_credential [OF cred(1)] cred(2) show ?thesis by simp
qed

lemma example_credential:
  "getCredentialData example_env h (credential_id example_nodeData) example_options
     = Inr [''customOcrApiKey'' \<mapsto> JStr ''secret'']"
  "credential_id example_nodeData = ''cred-1''"
  "getCredentialParam ''customOcrApiKey'' [''customOcrApiKey'' \<mapsto> JStr ''secret''] nd
     = Some ''secret''"
  by (simp_all add: example_env_def example_nodeData_def credential_id_def getCredentialParam_def)

lemma example_first_file:
  "\<exists>docs1. process_files example_env example_nodeData (Some ''secret'') example_options Storage
             [''a.pdf''] [] [GetCredentialData ''cred-1'' example_options]
     = (Inr docs1,
        [GetFileFromStorage ''a.pdf'' ''org'' ''flow'',
         Fetch (ocr_request example_env example_nodeData (Some ''secret'') [37, 80, 68, 70]
                  ''a.pdf'')])"
  by (simp add: example_env_def example_nodeData_def example_options_def pages_response_def
        postFilesToCustomApi_def read_response_def ocr_request_def load_file_def
        extract_file_def split_with_def extractDocsFromCustomApi_def perPage_document_def
        item_content_def loc_lines_def item_field_def endsWith_def toLowerCase_def
        lower_char_def suffix_def)

text \<open>
  The example: the second of three files fails, the third is never fetched.
\<close>

theorem remote_failure_aborts_witness:
  "init example_env example_nodeData example_options [] =
     (Inl (Error ''Failed to process file with Custom OCR API: Invalid response format from Custom OCR API: expected array of pages''),
      [GetCredentialData ''cred-1'' example_options,
       GetFileFromStorage ''a.pdf'' ''org'' ''flow'',
       Fetch (ocr_request example_env example_nodeData (Some ''secret'') [37, 80, 68, 70] ''a.pdf''),
       GetFileFromStorage ''bad.pdf'' ''org'' ''flow'',
       Fetch (ocr_request example_env example_nodeData (Some ''secret'') [37, 80, 68, 70]
                ''bad.pdf'')])"
proof -
  let ?fb = "''FILE-STORAGE::'' @ example_list"
  let ?c = "GetCredentialData (credential_id example_nodeData) example_options"
  let ?first = "[GetFileFromStorage ''a.pdf'' ''org'' ''flow'',
         Fetch (ocr_request example_env example_nodeData (Some ''secret'') [37, 80, 68, 70]
                  ''a.pdf'')]"
  note cred = example_credential(1) [of "[]"] example_credential(3) [of example_nodeData]
  have fb: "fileBase64 example_nodeData = Some ?fb" "?fb \<noteq> []"
    by (simp_all add: fileBase64_def str_or_def example_nodeData_def)
  have files: "upload_files example_env ?fb = Inr (Storage, [''a.pdf''] @ ''bad.pdf'' # [''c.pdf''])"
    by (simp add: upload_files_def bracketed_def startsWith_def endsWith_def prefix_def suffix_def
          example_env_def example_list_def quoted_def)
  have remote: "truthy_str (customOcrApiUrl example_nodeData)" "truthy_str (Some ''secret'')"
    by (simp_all add: example_nodeData_def)
  from example_first_file obtain docs1 where
    earlier: "process_files example_env example_nodeData (Some ''secret'') example_options Storage
                [''a.pdf''] [] ([] @ [?c]) = (Inr docs1, ?first)"
    by (auto simp: example_credential(2))
  have bad: "''bad.pdf'' \<noteq> []" by simp
  have loaded: "load_file example_env example_options Storage ''bad.pdf'' ([] @ ?c # ?first)
     = (Inr ([37, 80, 68, 70], ''bad.pdf''), [GetFileFromStorage ''bad.pdf'' ''org'' ''flow''])"
    by (simp add: load_file_def example_env_def example_options_def)
  have failure: "postFilesToCustomApi example_env example_nodeData (Some ''secret'')
      [37, 80, 68, 70] ''bad.pdf''
      ([] @ ?c # ?first @ [GetFileFromStorage ''bad.pdf'' ''org'' ''flow''])
     = (Inl (Error ''Failed to process file with Custom OCR API: Invalid response format from Custom OCR API: expected array of pages''),
        [Fetch (ocr_request example_env example_nodeData (Some ''secret'') [37, 80, 68, 70]
                  ''bad.pdf'')])"
    by (simp add: postFilesToCustomApi_def read_response_def ocr_request_def example_env_def
          object_response_def)
  from remote_failure_aborts [OF cred fb files remote earlier bad loaded failure]
  show ?thesis by (simp add: example_credential(2))
qed

section \<open>Choice of the strategy\<close>












lemmas example_run_defs =
  init_def Let_def init_upload_def fileBase64_def str_or_def upload_files_def bracketed_def
  startsWith_def prefix_def finish_def render_def credential_id_def getCredentialParam_def
  example_env_def example_nodeData_def example_options_def example_pair_def example_list_def
  quoted_def pages_response_def
  postFilesToCustomApi_def read_response_def ocr_request_def load_file_def
  extract_file_def extractDocs_def split_with_def extractDocsFromCustomApi_def
  perPage_document_def item_content_def loc_lines_def merge_item_metadata_def
  base_metadata_def item_field_def endsWith_def toLowerCase_def lower_char_def suffix_def




section \<open>The metadata overlay\<close>

lemma process_files_same_inputs:
  assumes "textSplitter nd' = textSplitter nd" "customOcrApiUrl nd' = customOcrApiUrl nd"
    "usage nd' = usage nd" "legacyBuild nd' = legacyBuild nd"
  shows "process_files e nd' apiKey opts src files docs hist
           = process_files e nd apiKey opts src files docs hist"
proof -
  have x: "extract_file e nd' apiKey bf filename h = extract_file e nd apiKey bf filename h"
    for bf filename h
    unfolding extract_file_def postFilesToCustomApi_def ocr_request_def assms ..
  show ?thesis
    by (induction files arbitrary: docs hist) (auto simp: x split: prod.splits sum.splits)
qed

lemma finish_overlay:
  assumes "additionalMetadata nd = Some md" "truthy md" "parse_metadata e md = Inr overlay"
    "outputs_output nd = Some ''document''"
  shows "finish e nd docs = Inr (Documents (apply_metadata overlay docs))"
  using assms by (simp add: finish_def render_def)

lemma init_upload_overlay:
  assumes plain:
      "init_upload e (nd\<lparr>additionalMetadata := None, outputs_output := Some ''document''\<rparr>)
         apiKey opts hist = (Inr (Documents docs), cs)"
    and md: "truthy md" "parse_metadata e md = Inr overlay"
  shows "init_upload e (nd\<lparr>additionalMetadata := Some md, outputs_output := Some ''document''\<rparr>)
           apiKey opts hist = (Inr (Documents (apply_metadata overlay docs)), cs)"
proof -
  let ?p = "nd\<lparr>additionalMetadata := None, outputs_output := Some ''document''\<rparr>"
  let ?m = "nd\<lparr>additionalMetadata := Some md, outputs_output := Some ''document''\<rparr>"
  have fb: "fileBase64 ?m = fileBase64 ?p" by (simp add: fileBase64_def)
  have pf: "process_files e ?m apiKey opts src files [] hist
              = process_files e ?p apiKey opts src files [] hist" for src files
    by (rule process_files_same_inputs) simp_all
  from plain have t: "truthy_str (fileBase64 ?p)"
    by (auto simp: init_upload_def split: if_splits)
  from plain t obtain src files where
    up: "upload_files e (case fileBase64 ?p of None \<Rightarrow> [] | Some fb \<Rightarrow> fb) = Inr (src, files)"
    and run: "process_files e ?p apiKey opts src files [] hist = (Inr docs, cs)"
    by (auto simp: init_upload_def finish_def render_def split: sum.splits prod.splits)
  have "finish e ?m docs = Inr (Documents (apply_metadata overlay docs))"
    using md by (simp add: finish_overlay)
  with t up run fb pf show ?thesis
    by (simp add: init_upload_def)
qed

text \<open>
  C7. Take an invocation that, without additional metadata and on the document channel,
  returns the collection \<open>docs\<close>. The same invocation with a truthy additional metadata that
  parses to \<open>overlay\<close> makes the same calls and returns a collection of the same length, in
  which page \<open>i\<close> has the content of page \<open>i\<close> of \<open>docs\<close> and, at every key, the overlay's value
  when the overlay has the key and the value of page \<open>i\<close> of \<open>docs\<close> otherwise.
\<close>

theorem overlay_frame:
  assumes plain:
      "init e (nd\<lparr>additionalMetadata := None, outputs_output := Some ''document''\<rparr>) opts hist
         = (Inr (Documents docs), cs)"
    and md: "truthy md" "parse_metadata e md = Inr overlay"
  shows "\<exists>docs'.
           init e (nd\<lparr>additionalMetadata := Some md, outputs_output := Some ''document''\<rparr>) opts hist
             = (Inr (Documents docs'), cs)
           \<and> length docs' = length docs
           \<and> (\<forall>i<length docs.
                 pageContent (docs' ! i) = pageContent (docs ! i)
                 \<and> (\<forall>k. metadata (docs' ! i) k =
                          (case own_props overlay k of
                             Some v \<Rightarrow> Some v
                           | None \<Rightarrow> metadata (docs ! i) k)))"
proof -
  let ?p = "nd\<lparr>additionalMetadata := None, outputs_output := Some ''document''\<rparr>"
  let ?m = "nd\<lparr>additionalMetadata := Some md, outputs_output := Some ''document''\<rparr>"
  let ?c = "GetCredentialData (credential_id nd) opts"
  have id: "credential_id ?p = credential_id nd" "credential_id ?m = credential_id nd"
    by (simp_all add: credential_id_def)
  from plain obtain credentialData where
    cred: "getCredentialData e hist (credential_id nd) opts = Inr credentialData"
    by (cases "getCredentialData e hist (credential_id nd) opts")
       (auto simp: init_def Let_def id)
  let ?k = "getCredentialParam ''customOcrApiKey'' credentialData nd"
  have key: "getCredentialParam ''customOcrApiKey'' credentialData ?p = ?k"
    "getCredentialParam ''customOcrApiKey'' credentialData ?m = ?k"
    by (simp_all add: getCredentialParam_def)
  from plain cred obtain cs' where cs: "cs = ?c # cs'"
    and up: "init_upload e ?p ?k opts (hist @ [?c]) = (Inr (Documents docs), cs')"
    by (auto simp: init_def Let_def id key split: prod.splits)
  from init_upload_overlay [OF up md] cred cs
  have "init e ?m opts hist = (Inr (Documents (apply_metadata overlay docs)), cs)"
    by (simp add: init_def Let_def id key)
  moreover have "length (apply_metadata overlay docs) = length docs"
    by (simp add: apply_metadata_def)
  moreover have "pageContent (apply_metadata overlay docs ! i) = pageContent (docs ! i)
                 \<and> (\<forall>k. metadata (apply_metadata overlay docs ! i) k =
                          (case own_props overlay k of
                             Some v \<Rightarrow> Some v
                           | None \<Rightarrow> metadata (docs ! i) k))" if "i < length docs" for i
    using that by (simp add: apply_metadata_def map_add_def)
  ultimately show ?thesis by blast
qed

lemma example_single_file:
  "\<exists>docs. init example_env
             (example_nodeData\<lparr>processFile := Some ''FILE-STORAGE::a.pdf'',
                additionalMetadata := None, outputs_output := Some ''document''\<rparr>)
             example_options []
           = (Inr (Documents docs),
              [GetCredentialData ''cred-1'' example_options,
               GetFileFromStorage ''a.pdf'' ''org'' ''flow'',
               Fetch (ocr_request example_env example_nodeData (Some ''secret'')
                        [37, 80, 68, 70] ''a.pdf'')])
     \<and> length docs = 2
     \<and> pageContent (docs ! 0) = JStr ''page one'' \<and> pageContent (docs ! 1) = JStr ''page two''
     \<and> metadata (docs ! 0) ''source'' = Some (JStr ''a.pdf'')
     \<and> metadata (docs ! 0) ''custom_ocr'' = Some (JBool True)"
  by (simp add: example_run_defs)

text \<open>The overlay \<^verbatim>\<open>{tag: "x", source: "upload"}\<close> on the two pages of the example's first file.\<close>

theorem overlay_frame_witness:
  "\<exists>docs'. init example_env
             (example_nodeData\<lparr>processFile := Some ''FILE-STORAGE::a.pdf'',
                additionalMetadata := Some (JObj [''tag'' \<mapsto> JStr ''x'',
                                                  ''source'' \<mapsto> JStr ''upload'']),
                outputs_output := Some ''document''\<rparr>)
             example_options []
           = (Inr (Documents docs'),
              [GetCredentialData ''cred-1'' example_options,
               GetFileFromStorage ''a.pdf'' ''org'' ''flow'',
               Fetch (ocr_request example_env example_nodeData (Some ''secret'')
                        [37, 80, 68, 70] ''a.pdf'')])
     \<and> length docs' = 2
     \<and> pageContent (docs' ! 0) = JStr ''page one'' \<and> pageContent (docs' ! 1) = JStr ''page two''
     \<and> metadata (docs' ! 0) ''tag'' = Some (JStr ''x'')
     \<and> metadata (docs' ! 0) ''source'' = Some (JStr ''upload'')
     \<and> metadata (docs' ! 0) ''custom_ocr'' = Some (JBool True)"
proof -
  let ?nd = "example_nodeData\<lparr>processFile := Some ''FILE-STORAGE::a.pdf''\<rparr>"
  let ?md = "JObj [''tag'' \<mapsto> JStr ''x'', ''source'' \<mapsto> JStr ''upload'']"
  let ?log = "[GetCredentialData ''cred-1'' example_options,
               GetFileFromStorage ''a.pdf'' ''org'' ''flow'',
               Fetch (ocr_request example_env example_nodeData (Some ''secret'')
                        [37, 80, 68, 70] ''a.pdf'')]"
  from example_single_file obtain docs where
    plain: "init example_env (?nd\<lparr>additionalMetadata := None, outputs_output := Some ''document''\<rparr>)
              example_options [] = (Inr (Documents docs), ?log)"
    and docs: "length docs = 2"
      "pageContent (docs ! 0) = JStr ''page one''" "pageContent (docs ! 1) = JStr ''page two''"
      "metadata (docs ! 0) ''source'' = Some (JStr ''a.pdf'')"
      "metadata (docs ! 0) ''custom_ocr'' = Some (JBool True)"
    by auto
  have md: "truthy ?md" "parse_metadata example_env ?md = Inr ?md"
    by (simp_all add: parse_metadata_def)
  from overlay_frame [OF plain md] obtain docs' where
    run: "init example_env (?nd\<lparr>additionalMetadata := Some ?md, outputs_output := Some ''document''\<rparr>)
              example_options [] = (Inr (Documents docs'), ?log)"
    and len: "length docs' = length docs"
    and nth: "\<And>i. i < length docs \<Longrightarrow> pageContent (docs' ! i) = pageContent (docs ! i)
                 \<and> (\<forall>k. metadata (docs' ! i) k =
                          (case own_props ?md k of
                             Some v \<Rightarrow> Some v
                           | None \<Rightarrow> metadata (docs ! i) k))"
    by blast
  from nth [of 0] nth [of 1] docs len have
    "length docs' = 2"
    "pageContent (docs' ! 0) = JStr ''page one''" "pageContent (docs' ! 1) = JStr ''page two''"
    "metadata (docs' ! 0) ''tag'' = Some (JStr ''x'')"
    "metadata (docs' ! 0) ''source'' = Some (JStr ''upload'')"
    "metadata (docs' ! 0) ''custom_ocr'' = Some (JBool True)"
    by simp_all
  with run show ?thesis by simp
qed

end
